theory Spec2Isabelle
  imports
    Main
    "HOL-Library.Sublist"
    "HOL-Library.Char_ord"
    "HOL-Library.List_Lexorder"
    "HOL-Library.Option_ord"
    "HOL-Library.Multiset"
begin

section \<open>The task store (pkg/db/image\_generation\_db.py)\<close>

text \<open>
  A \<open>datetime\<close> is a point on the clock; only its order and equality matter here.
  \<open>ImageGenerationTask\<close> is the ORM row; the column \<open>id\<close> is called \<open>id_t\<close> because
  \<open>id\<close> is the identity function of HOL. \<open>status\<close> is a free string column.
  The table is the list of its rows in insertion order; the primary key makes ids unique.
  Database failures other than the primary-key violation are not modelled: every other
  store operation succeeds.
\<close>

type_synonym datetime = nat

record task =
  id_t :: string
  prompt :: string
  status :: string
  image_url :: "string option"
  error_message :: "string option"
  created_at :: "datetime option"
  completed_at :: "datetime option"
  session_id :: "string option"
  run_id :: "string option"

type_synonym store = "task list"

datatype error = IntegrityError | TypeError | OverflowError | HTTPException nat

definition get_task :: "store \<Rightarrow> string \<Rightarrow> task option" where
  "get_task db tid = find (\<lambda>t. id_t t = tid) db"

definition create_task ::
  "datetime \<Rightarrow> store \<Rightarrow> string \<Rightarrow> string \<Rightarrow> string option \<Rightarrow> string option \<Rightarrow> error + (store \<times> task)" where
  "create_task now db tid p sid rid =
     (case get_task db tid of
        Some _ \<Rightarrow> Inl IntegrityError
      | None \<Rightarrow>
          (let t = \<lparr> id_t = tid, prompt = p, status = ''pending'', image_url = None,
                     error_message = None, created_at = Some now, completed_at = None,
                     session_id = sid, run_id = rid \<rparr>
           in Inr (db @ [t], t)))"

text \<open>The four \<open>if x is not None\<close> assignments of \<open>update_task\<close>.\<close>

definition apply_fields ::
  "string option \<Rightarrow> string option \<Rightarrow> string option \<Rightarrow> datetime option \<Rightarrow> task \<Rightarrow> task" where
  "apply_fields st url err fin t =
     t \<lparr> status := (case st of None \<Rightarrow> status t | Some v \<Rightarrow> v),
         image_url := (case url of None \<Rightarrow> image_url t | Some v \<Rightarrow> Some v),
         error_message := (case err of None \<Rightarrow> error_message t | Some v \<Rightarrow> Some v),
         completed_at := (case fin of None \<Rightarrow> completed_at t | Some v \<Rightarrow> Some v) \<rparr>"

fun update_first :: "store \<Rightarrow> string \<Rightarrow> (task \<Rightarrow> task) \<Rightarrow> store" where
  "update_first [] tid f = []"
| "update_first (t # ts) tid f =
     (if id_t t = tid then f t # ts else t # update_first ts tid f)"

definition update_task ::
  "store \<Rightarrow> string \<Rightarrow> string option \<Rightarrow> string option \<Rightarrow> string option \<Rightarrow> datetime option
     \<Rightarrow> store \<times> task option" where
  "update_task db tid st url err fin =
     (case get_task db tid of
        None \<Rightarrow> (db, None)
      | Some t \<Rightarrow> (update_first db tid (apply_fields st url err fin),
                   Some (apply_fields st url err fin t)))"

text \<open>Python truthiness of an optional string: \<open>None\<close> and the empty string are false.\<close>

definition truthy :: "string option \<Rightarrow> bool" where
  "truthy s = (case s of None \<Rightarrow> False | Some v \<Rightarrow> v \<noteq> [])"

definition matches :: "string option \<Rightarrow> string option \<Rightarrow> string option \<Rightarrow> task \<Rightarrow> bool" where
  "matches st sid rid t =
     ((if truthy st then Some (status t) = st else True) \<and>
      (if truthy sid then session_id t = sid else True) \<and>
      (if truthy rid then run_id t = rid else True))"

text \<open>
  \<open>ORDER BY created_at DESC\<close>: a NULL sorts below every value, so it comes last; rows with
  equal keys are kept in table order.
\<close>

definition order_by_created_desc :: "task list \<Rightarrow> task list" where
  "order_by_created_desc ts = rev (sort_key created_at (rev ts))"

text \<open>
  \<open>limit\<close> and \<open>offset\<close> are Python integers bound as parameters of the paged query. An
  SQLite integer has 64 bits, signed: binding a value outside that range raises
  \<open>OverflowError\<close>, after the count has been taken, and nothing is returned. Within the
  range SQLite reads a negative offset as 0 and a negative limit as no limit.
\<close>

definition sqlite_integer :: "int \<Rightarrow> bool" where
  "sqlite_integer n = (- (2 ^ 63) \<le> n \<and> n < 2 ^ 63)"

definition list_tasks ::
  "store \<Rightarrow> string option \<Rightarrow> string option \<Rightarrow> string option \<Rightarrow> int \<Rightarrow> int
     \<Rightarrow> error + (nat \<times> task list)" where
  "list_tasks db st sid rid limit offset =
     (let query = filter (matches st sid rid) db;
          total = length query
      in if \<not> sqlite_integer limit \<or> \<not> sqlite_integer offset then Inl OverflowError
         else (let skipped = drop (nat offset) (order_by_created_desc query)
               in Inr (total, if limit < 0 then skipped else take (nat limit) skipped)))"

definition get_all_tasks ::
  "store \<Rightarrow> string option \<Rightarrow> string option \<Rightarrow> string option \<Rightarrow> nat \<times> task list" where
  "get_all_tasks db st sid rid =
     (let query = filter (matches st sid rid) db
      in (length query, order_by_created_desc query))"

section \<open>Dictionaries of the session state\<close>

text \<open>
  A task dictionary is a \<open>Dict[str, Any]\<close> whose values are strings or \<open>None\<close>.
  \<open>dict_get\<close> is \<open>d.get(k)\<close> and \<open>dict_get_default\<close> is \<open>d.get(k, v)\<close>; the merge
  \<open>{**a, **b}\<close> is \<open>a ++ b\<close>. \<open>isoformat\<close> is passed to \<open>task_to_dict\<close> as \<open>isoformat\<close>.
\<close>

datatype pyval = PNone | PStr string

type_synonym entry = "string \<rightharpoonup> pyval"

definition dict_get :: "entry \<Rightarrow> string \<Rightarrow> pyval" where
  "dict_get d k = (case d k of None \<Rightarrow> PNone | Some v \<Rightarrow> v)"

definition dict_get_default :: "entry \<Rightarrow> string \<Rightarrow> pyval \<Rightarrow> pyval" where
  "dict_get_default d k v = (case d k of None \<Rightarrow> v | Some w \<Rightarrow> w)"

definition opt_val :: "string option \<Rightarrow> pyval" where
  "opt_val s = (case s of None \<Rightarrow> PNone | Some v \<Rightarrow> PStr v)"

definition task_to_dict :: "(datetime \<Rightarrow> string) \<Rightarrow> task \<Rightarrow> entry" where
  "task_to_dict isoformat t = map_of
     [(''task_id'', PStr (id_t t)),
      (''prompt'', PStr (prompt t)),
      (''status'', PStr (status t)),
      (''image_url'', opt_val (image_url t)),
      (''error_message'', opt_val (error_message t)),
      (''created_at'', opt_val (map_option isoformat (created_at t))),
      (''completed_at'', opt_val (map_option isoformat (completed_at t))),
      (''session_id'', opt_val (session_id t)),
      (''run_id'', opt_val (run_id t))]"

section \<open>The completion receiver (pkg/api/image\_generation\_api.py)\<close>

record ImageGenerationCallback =
  cb_task_id :: string
  cb_status :: string
  cb_image_url :: string
  cb_completed_at :: string
  cb_error_message :: "string option"

text \<open>\<open>s.replace("Z", "+00:00")\<close>.\<close>

definition replace_Z :: "string \<Rightarrow> string" where
  "replace_Z s = concat (map (\<lambda>c. if c = CHR ''Z'' then ''+00:00'' else [c]) s)"

text \<open>
  \<open>fromisoformat\<close> stands for \<open>datetime.fromisoformat\<close>: \<open>None\<close> where it raises
  \<open>ValueError\<close>. \<open>now\<close> is the reading of \<open>datetime.utcnow()\<close> at receipt.
  The result is the store and either the HTTP error or the task id of the response.
\<close>

definition image_generation_callback ::
  "(string \<Rightarrow> datetime option) \<Rightarrow> datetime \<Rightarrow> ImageGenerationCallback \<Rightarrow> store
     \<Rightarrow> store \<times> (error + string)" where
  "image_generation_callback fromisoformat now callback db =
     (let fin = (case fromisoformat (replace_Z (cb_completed_at callback)) of
                   Some d \<Rightarrow> d
                 | None \<Rightarrow> now);
          (db', task) = update_task db (cb_task_id callback) (Some (cb_status callback))
                          (Some (cb_image_url callback)) (cb_error_message callback) (Some fin)
      in case task of
           None \<Rightarrow> (db', Inl (HTTPException 404))
         | Some _ \<Rightarrow> (db', Inr (cb_task_id callback)))"

text \<open>
  The query endpoint: \<open>Query(ge=1, le=1000)\<close> and \<open>Query(ge=0)\<close> reject a request out of
  bounds with status 422 before the handler runs; the offset has no upper bound, and an
  exception of \<open>list_tasks\<close> is answered with status 500.
\<close>

definition api_list_tasks ::
  "(datetime \<Rightarrow> string) \<Rightarrow> store \<Rightarrow> string option \<Rightarrow> string option \<Rightarrow> string option \<Rightarrow> int \<Rightarrow> int
     \<Rightarrow> error + (nat \<times> entry list)" where
  "api_list_tasks isoformat db st sid rid limit offset =
     (if limit < 1 \<or> 1000 < limit \<or> offset < 0 then Inl (HTTPException 422)
      else (case list_tasks db st sid rid limit offset of
              Inl e \<Rightarrow> Inl (HTTPException 500)
            | Inr (total_count, tasks) \<Rightarrow>
                Inr (total_count, map (task_to_dict isoformat) tasks)))"

section \<open>Runner and notifier (pkg/tools/image\_generator.py)\<close>

text \<open>
  What the POST of \<open>_call_webhook\<close> can do: \<open>reached\<close> says whether the request was
  handled by the receiver above (at time \<open>recv_time\<close>), \<open>result\<close> is what the client
  sees: a response with its status code, or one of the exceptions.
\<close>

datatype post_result = Response nat | ConnectError | TimeoutException | OtherException

record delivery =
  reached :: bool
  recv_time :: datetime
  result :: post_result

text \<open>
  \<open>call_webhook\<close> returns the successive states of the store, one per write.
  \<open>t_payload\<close> and \<open>t_fallback\<close> are the two readings of \<open>datetime.utcnow()\<close>.
\<close>

definition call_webhook ::
  "(datetime \<Rightarrow> string) \<Rightarrow> (string \<Rightarrow> datetime option) \<Rightarrow> delivery \<Rightarrow> datetime \<Rightarrow> datetime
     \<Rightarrow> string \<Rightarrow> string \<Rightarrow> store \<Rightarrow> store list" where
  "call_webhook isoformat fromisoformat env t_payload t_fallback tid url db =
     (let payload = \<lparr> cb_task_id = tid, cb_status = ''completed'', cb_image_url = url,
                       cb_completed_at = isoformat t_payload, cb_error_message = None \<rparr>;
          received = (if reached env
                      then [fst (image_generation_callback fromisoformat (recv_time env) payload db)]
                      else []);
          db1 = last (db # received)
      in case result env of
           Response code \<Rightarrow>
             (if code = 200 then received
              else received @ [fst (update_task db1 tid (Some ''completed'') (Some url) None (Some t_fallback))])
         | ConnectError \<Rightarrow>
             received @ [fst (update_task db1 tid (Some ''completed'') (Some url) None (Some t_fallback))]
         | TimeoutException \<Rightarrow>
             received @ [fst (update_task db1 tid (Some ''completed'') (Some url) None (Some t_fallback))]
         | OtherException \<Rightarrow>
             received @ [fst (update_task db1 tid (Some ''completed'') (Some url) None (Some t_fallback))])"

text \<open>
  \<open>_async_generate_image\<close>: \<open>work\<close> is the outcome of the generation step between the
  write of \<open>processing\<close> and the webhook call: \<open>None\<close> when it returns, \<open>Some e\<close> when
  it raises an exception whose text is \<open>e\<close>. The result is again the list of store states.
\<close>

definition async_generate_image ::
  "(datetime \<Rightarrow> string) \<Rightarrow> (string \<Rightarrow> datetime option) \<Rightarrow> string option \<Rightarrow> delivery
     \<Rightarrow> datetime \<Rightarrow> datetime \<Rightarrow> string \<Rightarrow> store \<Rightarrow> store list" where
  "async_generate_image isoformat fromisoformat work env t_payload t_fallback tid db =
     (case get_task db tid of
        None \<Rightarrow> []
      | Some _ \<Rightarrow>
          (let db1 = fst (update_task db tid (Some ''processing'') None None None)
           in case work of
                Some e \<Rightarrow> [db1, fst (update_task db1 tid (Some ''failed'') None (Some e) None)]
              | None \<Rightarrow>
                  db1 # call_webhook isoformat fromisoformat env t_payload t_fallback tid
                          (''https://example.com/generated-images/'' @ tid @ ''.png'') db1))"

text \<open>
  The writes that reach the store, one constructor per call site: \<open>create_task\<close>, the
  runner's two \<open>update_task\<close> calls, the notifier's fallback and the receiver.
\<close>

datatype op =
    Create string string "string option" "string option" datetime
  | Processing string
  | Failed string string
  | Fallback string string datetime
  | Callback ImageGenerationCallback datetime

fun apply_op :: "(string \<Rightarrow> datetime option) \<Rightarrow> op \<Rightarrow> store \<Rightarrow> store" where
  "apply_op fromisoformat (Create tid p sid rid now) db =
     (case create_task now db tid p sid rid of Inl _ \<Rightarrow> db | Inr (db', _) \<Rightarrow> db')"
| "apply_op fromisoformat (Processing tid) db =
     fst (update_task db tid (Some ''processing'') None None None)"
| "apply_op fromisoformat (Failed tid e) db =
     fst (update_task db tid (Some ''failed'') None (Some e) None)"
| "apply_op fromisoformat (Fallback tid url now) db =
     fst (update_task db tid (Some ''completed'') (Some url) None (Some now))"
| "apply_op fromisoformat (Callback callback now) db =
     fst (image_generation_callback fromisoformat now callback db)"

definition run_ops :: "(string \<Rightarrow> datetime option) \<Rightarrow> op list \<Rightarrow> store \<Rightarrow> store" where
  "run_ops fromisoformat ops db = fold (apply_op fromisoformat) ops db"

section \<open>The session cache (pkg/tools/image\_generator.py)\<close>

text \<open>
  \<open>session_state\<close> is the dictionary handed in by the conversational layer; the three
  keys the toolkit reads are its fields, \<open>None\<close> for a key that is absent (for the two
  identifiers also for a key that holds \<open>None\<close>: the code does not tell them apart).
  A \<open>session_state option\<close> is the argument itself, \<open>None\<close> for Python's \<open>None\<close>.
\<close>

record session_state =
  image_generation_tasks :: "entry list option"
  state_session_id :: "string option"
  state_run_id :: "string option"

definition MAX_TASKS_IN_SESSION_STATE :: nat where
  "MAX_TASKS_IN_SESSION_STATE = 20"

definition get_tasks_from_session_state :: "session_state option \<Rightarrow> entry list" where
  "get_tasks_from_session_state ss =
     (case ss of
        None \<Rightarrow> []
      | Some s \<Rightarrow> (case image_generation_tasks s of None \<Rightarrow> [] | Some ts \<Rightarrow> ts))"

text \<open>
  The loop of \<open>_update_task_in_session_state\<close> with the \<open>append\<close> that follows it: the
  first dictionary whose \<open>task_id\<close> equals the incoming one is replaced by the merge.
\<close>

fun merge_or_append :: "entry list \<Rightarrow> entry \<Rightarrow> entry list" where
  "merge_or_append [] task_info = [task_info]"
| "merge_or_append (task # tasks) task_info =
     (if dict_get task ''task_id'' = dict_get task_info ''task_id''
      then (task ++ task_info) # tasks
      else task # merge_or_append tasks task_info)"

definition update_task_in_session_state ::
  "session_state option \<Rightarrow> entry \<Rightarrow> session_state option" where
  "update_task_in_session_state ss task_info =
     (case ss of
        None \<Rightarrow> None
      | Some s \<Rightarrow>
          Some (s \<lparr> image_generation_tasks :=
                      Some (merge_or_append
                              (case image_generation_tasks s of None \<Rightarrow> [] | Some ts \<Rightarrow> ts)
                              task_info) \<rparr>))"

definition is_unfinished :: "entry \<Rightarrow> bool" where
  "is_unfinished t =
     (dict_get t ''status'' = PStr ''pending'' \<or> dict_get t ''status'' = PStr ''processing'')"

text \<open>
  \<open>completed_tasks.sort(key=lambda x: x.get("created_at", ""), reverse=True)\<close>.
  Strings compare by code point, lexicographically. Comparing \<open>None\<close> with anything raises
  \<open>TypeError\<close>, and with two or more elements every key is compared at least once.
  A reversed sort is stable: it reverses, sorts ascending, and reverses again.
\<close>

definition created_key :: "entry \<Rightarrow> string" where
  "created_key t =
     (case dict_get_default t ''created_at'' (PStr []) of PStr s \<Rightarrow> s | PNone \<Rightarrow> [])"

definition sort_created_desc :: "entry list \<Rightarrow> error + entry list" where
  "sort_created_desc ts =
     (if 2 \<le> length ts \<and> list_ex (\<lambda>t. dict_get_default t ''created_at'' (PStr []) = PNone) ts
      then Inl TypeError
      else Inr (rev (sort_key created_key (rev ts))))"

definition cleanup_list :: "entry list \<Rightarrow> error + entry list" where
  "cleanup_list tasks =
     (if length tasks \<le> MAX_TASKS_IN_SESSION_STATE then Inr tasks
      else
        (let pending_tasks = filter is_unfinished tasks;
             completed_tasks = filter (\<lambda>t. \<not> is_unfinished t) tasks
         in case sort_created_desc completed_tasks of
              Inl e \<Rightarrow> Inl e
            | Inr sorted_tasks \<Rightarrow>
                (let remaining_slots = int MAX_TASKS_IN_SESSION_STATE - int (length pending_tasks);
                     kept_completed = take (nat (max 0 remaining_slots)) sorted_tasks
                 in Inr (pending_tasks @ kept_completed))))"

definition cleanup_old_tasks :: "session_state option \<Rightarrow> error + session_state option" where
  "cleanup_old_tasks ss =
     (case ss of
        None \<Rightarrow> Inr None
      | Some s \<Rightarrow>
          (let tasks = (case image_generation_tasks s of None \<Rightarrow> [] | Some ts \<Rightarrow> ts)
           in if length tasks \<le> MAX_TASKS_IN_SESSION_STATE then Inr (Some s)
              else (case cleanup_list tasks of
                      Inl e \<Rightarrow> Inl e
                    | Inr kept \<Rightarrow> Inr (Some (s \<lparr> image_generation_tasks := Some kept \<rparr>)))))"

section \<open>The tools (pkg/tools/image\_generator.py)\<close>

text \<open>
  The returned strings are format templates; each is a constructor that carries the
  values interpolated into it.
\<close>

datatype message =
    NoPrompt
  | TaskExists string string
  | Submitted string
  | CreateFailed
  | NoSessionState
  | NothingToSync
  | Synced nat nat nat
  | SyncFailed
  | NoTaskId
  | TaskNotFound string
  | StatusInfo entry

text \<open>
  What the tool reads from the framework objects: the result of
  \<open>_extract_prompt_from_context\<close>, and the \<open>run_id\<close> attribute of the run context and of
  the agent (\<open>None\<close> when the object or the attribute is missing).
\<close>

record tool_context =
  extracted_prompt :: "string option"
  context_run_id :: "string option option"
  agent_run_id :: "string option option"

definition empty_state :: session_state where
  "empty_state = \<lparr> image_generation_tasks = None, state_session_id = None, state_run_id = None \<rparr>"

text \<open>
  \<open>generate_image\<close> returns its message, the store, the session dictionary it worked on
  and the worker it started, if any (task id and prompt). \<open>uuid4\<close> is the identifier that
  \<open>uuid.uuid4()\<close> would give; \<open>t_create\<close> and \<open>t_info\<close> are the two clock readings.
\<close>

definition generate_image ::
  "(datetime \<Rightarrow> string) \<Rightarrow> datetime \<Rightarrow> datetime \<Rightarrow> string \<Rightarrow> tool_context
     \<Rightarrow> string option \<Rightarrow> string option \<Rightarrow> session_state option \<Rightarrow> store
     \<Rightarrow> message \<times> store \<times> session_state \<times> (string \<times> string) option" where
  "generate_image isoformat t_create t_info uuid4 ctx prompt_arg task_id_arg state_arg db =
     (let ss = (case state_arg of None \<Rightarrow> empty_state | Some s \<Rightarrow> s);
          resolved = (if truthy prompt_arg then prompt_arg else extracted_prompt ctx)
      in case resolved of
           None \<Rightarrow> (NoPrompt, db, ss, None)
         | Some p \<Rightarrow>
             (if p = [] then (NoPrompt, db, ss, None)
              else
                (let tid = (case task_id_arg of
                              None \<Rightarrow> uuid4
                            | Some v \<Rightarrow> if v = [] then uuid4 else v);
                     rid = (case context_run_id ctx of
                              Some r \<Rightarrow> r
                            | None \<Rightarrow> (case agent_run_id ctx of
                                          Some r \<Rightarrow> r
                                        | None \<Rightarrow> state_run_id ss))
                 in case get_task db tid of
                      Some existing \<Rightarrow> (TaskExists tid (status existing), db, ss, None)
                    | None \<Rightarrow>
                        (case create_task t_create db tid p (state_session_id ss) rid of
                           Inl e \<Rightarrow> (CreateFailed, db, ss, None)
                         | Inr (db', created) \<Rightarrow>
                             (let task_info = map_of
                                    [(''task_id'', PStr tid),
                                     (''prompt'', PStr p),
                                     (''status'', PStr ''pending''),
                                     (''created_at'', PStr (isoformat t_info))];
                                  ss1 = update_task_in_session_state (Some ss) task_info
                              in case cleanup_old_tasks ss1 of
                                   Inl e \<Rightarrow>
                                     (CreateFailed, db',
                                      (case ss1 of None \<Rightarrow> ss | Some s1 \<Rightarrow> s1), None)
                                 | Inr ss2 \<Rightarrow>
                                     (Submitted tid, db',
                                      (case ss2 of None \<Rightarrow> ss | Some s2 \<Rightarrow> s2),
                                      Some (tid, p)))))))"

text \<open>The list comprehension and the loop of \<open>sync_pending_tasks\<close>.\<close>

fun pending_task_ids :: "entry list \<Rightarrow> string list" where
  "pending_task_ids [] = []"
| "pending_task_ids (t # ts) =
     (case dict_get t ''task_id'' of
        PStr s \<Rightarrow> (if is_unfinished t \<and> s \<noteq> [] then s # pending_task_ids ts
                   else pending_task_ids ts)
      | PNone \<Rightarrow> pending_task_ids ts)"

fun sync_loop ::
  "(datetime \<Rightarrow> string) \<Rightarrow> store \<Rightarrow> string list \<Rightarrow> session_state option \<times> nat \<times> nat \<times> nat
     \<Rightarrow> session_state option \<times> nat \<times> nat \<times> nat" where
  "sync_loop isoformat db [] acc = acc"
| "sync_loop isoformat db (tid # tids) (ss, updated, completed, still_pending) =
     (case get_task db tid of
        None \<Rightarrow> sync_loop isoformat db tids (ss, updated, completed, still_pending)
      | Some t \<Rightarrow>
          sync_loop isoformat db tids
            (update_task_in_session_state ss (task_to_dict isoformat t),
             updated + 1,
             (if status t = ''completed'' then completed + 1 else completed),
             (if status t = ''completed'' then still_pending
              else if status t = ''pending'' \<or> status t = ''processing'' then still_pending + 1
              else still_pending)))"

definition sync_pending_tasks ::
  "(datetime \<Rightarrow> string) \<Rightarrow> store \<Rightarrow> session_state option \<Rightarrow> message \<times> session_state option" where
  "sync_pending_tasks isoformat db ss =
     (case ss of
        None \<Rightarrow> (NoSessionState, None)
      | Some s \<Rightarrow>
          (let ids = pending_task_ids (get_tasks_from_session_state (Some s))
           in if ids = [] then (NothingToSync, Some s)
              else
                (case sync_loop isoformat db ids (Some s, 0, 0, 0) of
                   (ss1, updated, completed, still_pending) \<Rightarrow>
                     (case cleanup_old_tasks ss1 of
                        Inl e \<Rightarrow> (SyncFailed, ss1)
                      | Inr ss2 \<Rightarrow> (Synced updated completed still_pending, ss2)))))"

definition check_task_status ::
  "(datetime \<Rightarrow> string) \<Rightarrow> store \<Rightarrow> string \<Rightarrow> session_state option \<Rightarrow> message \<times> session_state option" where
  "check_task_status isoformat db task_id ss =
     (if task_id = [] then (NoTaskId, ss)
      else case get_task db task_id of
             None \<Rightarrow> (TaskNotFound task_id, ss)
           | Some t \<Rightarrow>
               (StatusInfo (task_to_dict isoformat t),
                update_task_in_session_state ss (task_to_dict isoformat t)))"

section \<open>Observations and sample inputs\<close>

text \<open>The status of one task in each of a list of store states.\<close>

definition status_trace :: "string \<Rightarrow> store list \<Rightarrow> string option list" where
  "status_trace tid dbs = map (\<lambda>db. map_option status (get_task db tid)) dbs"

text \<open>Every row whose status is \<open>completed\<close> carries a completion time.\<close>

definition row_completed_has_time :: "task \<Rightarrow> bool" where
  "row_completed_has_time t = (if status t = ''completed'' then completed_at t \<noteq> None else True)"

definition completed_has_time :: "store \<Rightarrow> bool" where
  "completed_has_time db = list_all row_completed_has_time db"

text \<open>While the task is \<open>pending\<close> or \<open>processing\<close> it has no completion time.\<close>

definition unfinished_has_no_time :: "string \<Rightarrow> store \<Rightarrow> bool" where
  "unfinished_has_no_time tid db =
     (case get_task db tid of
        None \<Rightarrow> True
      | Some t \<Rightarrow> if status t = ''pending'' \<or> status t = ''processing''
                  then completed_at t = None else True)"

text \<open>
  Sample readings of the two library functions for the concrete examples below:
  \<open>fromisoformat_sample\<close> is \<open>datetime.fromisoformat\<close> on one well-formed timestamp (read as
  seconds since the epoch), every other string of the examples being malformed;
  \<open>isoformat_sample\<close> renders a clock reading as a string whose order follows the clock.
\<close>

definition fromisoformat_sample :: "string \<Rightarrow> datetime option" where
  "fromisoformat_sample s = (if s = ''2024-01-01T00:00:00+00:00'' then Some 1704067200 else None)"

definition isoformat_sample :: "datetime \<Rightarrow> string" where
  "isoformat_sample n = replicate n (CHR ''I'')"

definition sample_row :: task where
  "sample_row = \<lparr> id_t = ''t1'', prompt = ''fruit puree'', status = ''pending'', image_url = None,
                   error_message = None, created_at = Some 100, completed_at = None,
                   session_id = None, run_id = None \<rparr>"

definition sample_callback :: "string \<Rightarrow> string \<Rightarrow> ImageGenerationCallback" where
  "sample_callback st stamp = \<lparr> cb_task_id = ''t1'', cb_status = st, cb_image_url = ''u.png'',
                                  cb_completed_at = stamp, cb_error_message = None \<rparr>"

definition sample_delivery :: "bool \<Rightarrow> post_result \<Rightarrow> delivery" where
  "sample_delivery r p = \<lparr> reached = r, recv_time = 300, result = p \<rparr>"

definition sample_store :: store where
  "sample_store =
     [sample_row,
      sample_row \<lparr> id_t := ''t2'', status := ''completed'', created_at := Some 300,
                    completed_at := Some 310 \<rparr>,
      sample_row \<lparr> id_t := ''t3'', status := ''completed'', created_at := Some 200,
                    completed_at := Some 210 \<rparr>,
      sample_row \<lparr> id_t := ''t4'', status := ''completed'', created_at := Some 400,
                    completed_at := Some 410 \<rparr>]"

definition sample_entry :: "string \<Rightarrow> string \<Rightarrow> string \<Rightarrow> entry" where
  "sample_entry tid st created =
     map_of [(''task_id'', PStr tid), (''prompt'', PStr ''fruit puree''),
             (''status'', PStr st), (''created_at'', PStr created)]"

definition sample_state :: "entry list \<Rightarrow> session_state" where
  "sample_state ts = \<lparr> image_generation_tasks = Some ts, state_session_id = Some ''s1'',
                        state_run_id = None \<rparr>"

text \<open>The place of the first dictionary with the given \<open>task_id\<close>.\<close>

definition first_index :: "entry list \<Rightarrow> pyval \<Rightarrow> nat" where
  "first_index tasks v = length (takeWhile (\<lambda>t. dict_get t ''task_id'' \<noteq> v) tasks)"

text \<open>
  The text that a dictionary holds under \<open>created_at\<close>: its string, and the empty string
  when the key is absent (or holds \<open>None\<close>).
\<close>

abbreviation created_text :: "entry \<Rightarrow> string" where
  "created_text t \<equiv> (case t ''created_at'' of Some (PStr s) \<Rightarrow> s | _ \<Rightarrow> [])"


text \<open>A cache of \<open>p\<close> pending and \<open>c\<close> completed dictionaries with distinct ids.\<close>

definition sample_cache :: "nat \<Rightarrow> nat \<Rightarrow> entry list" where
  "sample_cache p c =
     map (\<lambda>n. sample_entry (replicate (Suc n) (CHR ''p'')) ''pending'' (replicate n (CHR ''I''))) [0..<p]
     @ map (\<lambda>n. sample_entry (replicate (Suc n) (CHR ''c'')) ''completed'' (replicate n (CHR ''I''))) [0..<c]"

text \<open>No two dictionaries of the cache have the same \<open>task_id\<close>: the cache is keyed by it.\<close>

definition distinct_ids :: "entry list \<Rightarrow> bool" where
  "distinct_ids ts = distinct (map (\<lambda>t. dict_get t ''task_id'') ts)"

text \<open>
  What one pass of the reconciliation does to a single dictionary, given the ids it
  fetches: a dictionary whose id is fetched and found is merged with the store's snapshot.
\<close>

definition refreshed :: "(datetime \<Rightarrow> string) \<Rightarrow> store \<Rightarrow> string list \<Rightarrow> entry \<Rightarrow> entry" where
  "refreshed isoformat db ids e =
     (case dict_get e ''task_id'' of
        PNone \<Rightarrow> e
      | PStr j \<Rightarrow>
          (if j \<in> set ids
           then (case get_task db j of None \<Rightarrow> e | Some r \<Rightarrow> e ++ task_to_dict isoformat r)
           else e))"

text \<open>
  What \<open>sync_pending_tasks\<close> leaves in the cache when no two dictionaries share an id:
  nothing changes when no id is to be fetched; otherwise every dictionary is refreshed and
  the cleanup runs, its failure leaving the refreshed list.
\<close>

definition sync_list :: "(datetime \<Rightarrow> string) \<Rightarrow> store \<Rightarrow> entry list \<Rightarrow> entry list" where
  "sync_list isoformat db T =
     (if pending_task_ids T = [] then T
      else if length T \<le> MAX_TASKS_IN_SESSION_STATE
           then map (refreshed isoformat db (pending_task_ids T)) T
           else (case cleanup_list (map (refreshed isoformat db (pending_task_ids T)) T) of
                   Inl e \<Rightarrow> map (refreshed isoformat db (pending_task_ids T)) T
                 | Inr K \<Rightarrow> K))"

definition sample_context :: "string option \<Rightarrow> tool_context" where
  "sample_context p = \<lparr> extracted_prompt = p, context_run_id = None, agent_run_id = None \<rparr>"

text \<open>
  A cache of 21 dictionaries in which the id \<open>c\<close> occurs twice, on the oldest finished
  dictionary and on the last, pending one; \<open>dup_rest\<close> is the 19 finished dictionaries
  between the two. The store holds the one row \<open>c\<close>, completed.
\<close>

definition dup_cache :: "entry list" where
  "dup_cache = sample_cache 0 20 @ [sample_entry ''c'' ''pending'' []]"

definition dup_store :: store where
  "dup_store = [sample_row \<lparr> id_t := ''c'', status := ''completed'', created_at := Some 0,
                             completed_at := Some 10 \<rparr>]"

definition dup_rest :: "entry list" where
  "dup_rest =
     map (\<lambda>n. sample_entry (replicate (Suc n) (CHR ''c'')) ''completed'' (replicate n (CHR ''I'')))
       [1..<20]"

section \<open>Facts about the store\<close>

lemma id_t_apply_fields: "id_t (apply_fields st url err fin t) = id_t t"
  by (simp add: apply_fields_def)

lemma get_task_update_first:
  assumes "\<And>t. id_t (f t) = id_t t"
  shows "get_task (update_first db tid f) k =
          (if k = tid then map_option f (get_task db k) else get_task db k)"
  using assms by (induction db) (auto simp: get_task_def)

lemma get_task_update_task:
  "get_task (fst (update_task db tid st url err fin)) k =
     (if k = tid then map_option (apply_fields st url err fin) (get_task db k) else get_task db k)"
  by (auto simp: update_task_def get_task_update_first id_t_apply_fields split: option.splits)

lemma update_first_twice:
  assumes "\<And>t. id_t (f t) = id_t t" "\<And>t. g (f t) = f t"
  shows "update_first (update_first db tid f) tid g = update_first db tid f"
  using assms by (induction db) auto

lemma apply_fields_twice:
  "apply_fields st url err fin (apply_fields st url err fin t) = apply_fields st url err fin t"
  by (simp add: apply_fields_def split: option.splits)

lemma update_task_twice:
  "fst (update_task (fst (update_task db tid st url err fin)) tid st url err fin)
     = fst (update_task db tid st url err fin)"
  by (auto simp: update_task_def get_task_update_first id_t_apply_fields update_first_twice
        apply_fields_twice split: option.splits)

lemma callback_store:
  "fst (image_generation_callback fi now cb db) =
     fst (update_task db (cb_task_id cb) (Some (cb_status cb)) (Some (cb_image_url cb))
           (cb_error_message cb)
           (Some (case fi (replace_Z (cb_completed_at cb)) of Some d \<Rightarrow> d | None \<Rightarrow> now)))"
  by (simp add: image_generation_callback_def Let_def split: prod.splits option.splits)

lemma get_task_callback:
  "get_task (fst (image_generation_callback fi now cb db)) k =
     (if k = cb_task_id cb
      then map_option
             (apply_fields (Some (cb_status cb)) (Some (cb_image_url cb)) (cb_error_message cb)
                (Some (case fi (replace_Z (cb_completed_at cb)) of Some d \<Rightarrow> d | None \<Rightarrow> now)))
             (get_task db k)
      else get_task db k)"
  by (simp add: callback_store get_task_update_task)

section \<open>The notifier's fallback\<close>

text \<open>
  Claim C3. When the unit of work has produced a result reference for a task of the store
  and the webhook delivery fails in any way (a response other than 200, a connection error,
  a timeout, any other exception), the notifier writes to the store itself: afterwards the
  task is \<open>completed\<close>, holds the result reference and has the completion time of the
  fallback write. This holds whether or not the request reached the receiver.
\<close>

theorem C3_fallback_reaches_completed:
  assumes "get_task db tid = Some t" and "result env \<noteq> Response 200"
  shows "call_webhook isoformat fromisoformat env t_payload t_fallback tid url db \<noteq> []
       \<and> map_option status
           (get_task (last (call_webhook isoformat fromisoformat env t_payload t_fallback tid url db)) tid)
           = Some ''completed''
       \<and> map_option image_url
           (get_task (last (call_webhook isoformat fromisoformat env t_payload t_fallback tid url db)) tid)
           = Some (Some url)
       \<and> map_option completed_at
           (get_task (last (call_webhook isoformat fromisoformat env t_payload t_fallback tid url db)) tid)
           = Some (Some t_fallback)"
  using assms
  by (cases "result env")
     (auto simp: call_webhook_def Let_def get_task_update_task get_task_callback apply_fields_def)

theorem C3_fallback_reaches_completed_witness:
  "get_task [sample_row] ''t1'' = Some sample_row
   \<and> result (sample_delivery False TimeoutException) \<noteq> Response 200
   \<and> call_webhook isoformat_sample fromisoformat_sample (sample_delivery False TimeoutException)
        200 400 ''t1'' ''u.png'' [sample_row] \<noteq> []
   \<and> map_option status
        (get_task (last (call_webhook isoformat_sample fromisoformat_sample
           (sample_delivery False TimeoutException) 200 400 ''t1'' ''u.png'' [sample_row])) ''t1'')
        = Some ''completed''
   \<and> map_option completed_at
        (get_task (last (call_webhook isoformat_sample fromisoformat_sample
           (sample_delivery False TimeoutException) 200 400 ''t1'' ''u.png'' [sample_row])) ''t1'')
        = Some (Some 400)"
proof -
  have h1: "get_task [sample_row] ''t1'' = Some sample_row"
    by (simp add: get_task_def sample_row_def)
  have h2: "result (sample_delivery False TimeoutException) \<noteq> Response 200"
    by (simp add: sample_delivery_def)
  show ?thesis
    using h1 h2
      C3_fallback_reaches_completed
        [where db = "[sample_row]" and tid = "''t1''" and t = sample_row
           and env = "sample_delivery False TimeoutException"
           and isoformat = isoformat_sample and fromisoformat = fromisoformat_sample
           and t_payload = 200 and t_fallback = 400 and url = "''u.png''"]
    by simp
qed

section \<open>The receiver\<close>

text \<open>
  Claim C7, as stated: handling the same accepted payload twice leaves the row as the first
  handling left it. It fails for a payload whose \<open>completed_at\<close> does not parse: each
  handling then stores its own time of receipt. Here the row \<open>t1\<close> exists, the payload is
  accepted both times, and the two receipts are at times 10 and 20.
\<close>

theorem C7_callback_twice_counterexample:
  "fst (image_generation_callback fromisoformat_sample 20
          (sample_callback ''completed'' ''not-a-date'')
          (fst (image_generation_callback fromisoformat_sample 10
                  (sample_callback ''completed'' ''not-a-date'') [sample_row])))
     \<noteq> fst (image_generation_callback fromisoformat_sample 10
               (sample_callback ''completed'' ''not-a-date'') [sample_row])"
  by (simp add: callback_store update_task_def get_task_def apply_fields_def
        sample_callback_def sample_row_def replace_Z_def fromisoformat_sample_def)

text \<open>
  Claim C7, amended. For every payload whose \<open>completed_at\<close> parses as a timestamp, handling
  it a second time, at any later time of receipt, leaves the store exactly as the first
  handling left it.
\<close>

theorem C7_callback_idempotent_when_parsed:
  assumes "fromisoformat (replace_Z (cb_completed_at cb)) = Some d"
  shows "fst (image_generation_callback fromisoformat now2 cb
               (fst (image_generation_callback fromisoformat now1 cb db)))
          = fst (image_generation_callback fromisoformat now1 cb db)"
  using assms by (simp add: callback_store update_task_twice)

theorem C7_callback_idempotent_when_parsed_witness:
  "fromisoformat_sample
     (replace_Z (cb_completed_at (sample_callback ''completed'' ''2024-01-01T00:00:00Z'')))
     = Some 1704067200
   \<and> fst (image_generation_callback fromisoformat_sample 20
            (sample_callback ''completed'' ''2024-01-01T00:00:00Z'')
            (fst (image_generation_callback fromisoformat_sample 10
                    (sample_callback ''completed'' ''2024-01-01T00:00:00Z'') [sample_row])))
     = fst (image_generation_callback fromisoformat_sample 10
              (sample_callback ''completed'' ''2024-01-01T00:00:00Z'') [sample_row])"
proof -
  have h: "fromisoformat_sample
             (replace_Z (cb_completed_at (sample_callback ''completed'' ''2024-01-01T00:00:00Z'')))
             = Some 1704067200"
    by (simp add: sample_callback_def replace_Z_def fromisoformat_sample_def)
  show ?thesis
    using h C7_callback_idempotent_when_parsed
      [where fromisoformat = fromisoformat_sample
         and cb = "sample_callback ''completed'' ''2024-01-01T00:00:00Z''"
         and d = 1704067200 and ?now2.0 = 20 and ?now1.0 = 10 and db = "[sample_row]"]
    by simp
qed

section \<open>Completion time and status\<close>

lemma sample_row_created:
  "create_task 100 [] ''t1'' ''fruit puree'' None None = Inr ([sample_row], sample_row)"
  by (simp add: create_task_def get_task_def sample_row_def Let_def)

lemma get_sample_row: "get_task [sample_row] ''t1'' = Some sample_row"
  by (simp add: get_task_def sample_row_def)

text \<open>
  Claim C1, as stated: \<open>completed_at\<close> is present exactly when the status is \<open>completed\<close>
  or \<open>failed\<close>. Both directions fail. The row \<open>t1\<close> is created; when the generation step
  raises, the runner writes \<open>failed\<close> without a completion time. And a payload that carries
  the status \<open>processing\<close> is stored by the receiver together with a completion time.
\<close>

theorem C1_counterexample:
  "create_task 100 [] ''t1'' ''fruit puree'' None None = Inr ([sample_row], sample_row)
   \<and> map_option status
        (get_task (last (async_generate_image isoformat_sample fromisoformat_sample (Some ''boom'')
                           (sample_delivery False ConnectError) 200 400 ''t1'' [sample_row])) ''t1'')
        = Some ''failed''
   \<and> map_option completed_at
        (get_task (last (async_generate_image isoformat_sample fromisoformat_sample (Some ''boom'')
                           (sample_delivery False ConnectError) 200 400 ''t1'' [sample_row])) ''t1'')
        = Some None
   \<and> map_option status
        (get_task (fst (image_generation_callback fromisoformat_sample 10
                          (sample_callback ''processing'' ''not-a-date'') [sample_row])) ''t1'')
        = Some ''processing''
   \<and> map_option completed_at
        (get_task (fst (image_generation_callback fromisoformat_sample 10
                          (sample_callback ''processing'' ''not-a-date'') [sample_row])) ''t1'')
        = Some (Some 10)"
  by (simp add: sample_row_created async_generate_image_def Let_def get_task_update_task
        get_task_callback get_sample_row sample_callback_def)
     (simp add: apply_fields_def sample_row_def sample_callback_def replace_Z_def
        fromisoformat_sample_def get_task_def)

lemma list_all_update_first:
  assumes "list_all P db" and "\<And>t. P (f t)"
  shows "list_all P (update_first db tid f)"
  using assms by (induction db) auto

lemma completed_has_time_update:
  assumes "completed_has_time db" and "st = Some ''completed'' \<Longrightarrow> fin \<noteq> None" and "st \<noteq> None"
  shows "completed_has_time (fst (update_task db tid st url err fin))"
proof -
  have "\<And>t. row_completed_has_time (apply_fields st url err fin t)"
    using assms(2,3) by (auto simp: row_completed_has_time_def apply_fields_def split: option.splits)
  then show ?thesis
    using assms(1) unfolding completed_has_time_def update_task_def
    by (auto split: option.splits intro: list_all_update_first)
qed

lemma completed_has_time_step:
  assumes "completed_has_time db"
  shows "completed_has_time (apply_op fi x db)"
proof (cases x)
  case (Create tid p sid rid now)
  then show ?thesis using assms
    by (auto simp: create_task_def completed_has_time_def row_completed_has_time_def Let_def
          split: option.splits)
next
  case (Callback cb now)
  then show ?thesis using assms
    by (auto simp: callback_store intro!: completed_has_time_update)
qed (use assms in \<open>auto intro!: completed_has_time_update\<close>)

lemma completed_has_time_run:
  "completed_has_time db \<Longrightarrow> completed_has_time (run_ops fi ops db)"
  unfolding run_ops_def
  by (induction ops arbitrary: db) (simp_all add: completed_has_time_step)

lemma worker_trace_no_time:
  assumes "get_task db tid = Some t" "completed_at t = None"
  shows "list_all (unfinished_has_no_time tid)
           (async_generate_image isoformat fromisoformat work env t_payload t_fallback tid db)"
  using assms
  by (cases "result env"; cases work)
     (auto simp: async_generate_image_def call_webhook_def Let_def unfinished_has_no_time_def
        get_task_update_task get_task_callback apply_fields_def)

text \<open>
  Claim C1, amended. After any sequence of writes (create, the runner's two transitions, the
  notifier's fallback, the receiver), on the empty store or on any store in which every
  \<open>completed\<close> row has a completion time, every \<open>completed\<close> row has one. And in every
  state that a worker run leaves behind for a task that had no completion time when the
  run began, the task has no completion time while it is \<open>pending\<close> or \<open>processing\<close>.
\<close>

theorem C1_completed_at_when_completed:
  "completed_has_time (run_ops fromisoformat ops [])
   \<and> (completed_has_time db \<longrightarrow> completed_has_time (run_ops fromisoformat ops db))
   \<and> (get_task db' tid = Some t \<and> completed_at t = None \<longrightarrow>
        list_all (unfinished_has_no_time tid)
          (async_generate_image isoformat fromisoformat work env t_payload t_fallback tid db'))"
proof (intro conjI impI)
  have "completed_has_time []" by (simp add: completed_has_time_def)
  then show "completed_has_time (run_ops fromisoformat ops [])"
    by (rule completed_has_time_run)
next
  assume "completed_has_time db"
  then show "completed_has_time (run_ops fromisoformat ops db)"
    by (rule completed_has_time_run)
next
  assume "get_task db' tid = Some t \<and> completed_at t = None"
  then show "list_all (unfinished_has_no_time tid)
          (async_generate_image isoformat fromisoformat work env t_payload t_fallback tid db')"
    using worker_trace_no_time by blast
qed

theorem C1_completed_at_when_completed_witness:
  "completed_has_time [sample_row]
   \<and> get_task [sample_row] ''t1'' = Some sample_row \<and> completed_at sample_row = None
   \<and> completed_has_time
        (run_ops fromisoformat_sample
           [Create ''t1'' ''fruit puree'' None None 100, Processing ''t1'',
            Callback (sample_callback ''completed'' ''2024-01-01T00:00:00Z'') 300] [])
   \<and> completed_has_time
        (run_ops fromisoformat_sample
           [Create ''t1'' ''fruit puree'' None None 100, Processing ''t1'',
            Callback (sample_callback ''completed'' ''2024-01-01T00:00:00Z'') 300] [sample_row])
   \<and> list_all (unfinished_has_no_time ''t1'')
        (async_generate_image isoformat_sample fromisoformat_sample None
           (sample_delivery True TimeoutException) 200 400 ''t1'' [sample_row])"
proof -
  have h1: "completed_has_time [sample_row]"
    by (simp add: completed_has_time_def row_completed_has_time_def sample_row_def)
  have h3: "completed_at sample_row = None"
    by (simp add: sample_row_def)
  show ?thesis
    using h1 get_sample_row h3
      C1_completed_at_when_completed
        [where db = "[sample_row]" and db' = "[sample_row]" and tid = "''t1''" and t = sample_row
           and fromisoformat = fromisoformat_sample and isoformat = isoformat_sample
           and ops = "[Create ''t1'' ''fruit puree'' None None 100, Processing ''t1'',
                       Callback (sample_callback ''completed'' ''2024-01-01T00:00:00Z'') 300]"
           and work = None and env = "sample_delivery True TimeoutException"
           and t_payload = 200 and t_fallback = 400]
    by simp
qed

section \<open>Status transitions\<close>

text \<open>
  Claim C2, as stated: once a task is \<open>completed\<close> or \<open>failed\<close> no later operation changes
  its status, updates through the webhook endpoint included. The row \<open>t1\<close> is moved to
  \<open>processing\<close> and completed by the fallback write; a later payload with the status
  \<open>pending\<close> is accepted by the receiver and puts the row back to \<open>pending\<close>.
\<close>

theorem C2_counterexample:
  "map_option status
     (get_task (run_ops fromisoformat_sample
                  [Processing ''t1'', Fallback ''t1'' ''u.png'' 400] [sample_row]) ''t1'')
     = Some ''completed''
   \<and> image_generation_callback fromisoformat_sample 500 (sample_callback ''pending'' ''not-a-date'')
        (run_ops fromisoformat_sample [Processing ''t1'', Fallback ''t1'' ''u.png'' 400] [sample_row])
      = (run_ops fromisoformat_sample
           [Processing ''t1'', Fallback ''t1'' ''u.png'' 400,
            Callback (sample_callback ''pending'' ''not-a-date'') 500] [sample_row],
         Inr ''t1'')
   \<and> map_option status
        (get_task (run_ops fromisoformat_sample
                     [Processing ''t1'', Fallback ''t1'' ''u.png'' 400,
                      Callback (sample_callback ''pending'' ''not-a-date'') 500] [sample_row]) ''t1'')
        = Some ''pending''"
  by (simp add: run_ops_def image_generation_callback_def update_task_def get_task_def
        apply_fields_def sample_row_def sample_callback_def replace_Z_def fromisoformat_sample_def)

lemma worker_trace_cases:
  assumes "get_task db tid = Some t" "status t = ''pending''"
  shows "remdups_adj (status_trace tid
           (db # async_generate_image isoformat fromisoformat work env t_payload t_fallback tid db))
         \<in> {[Some ''pending'', Some ''processing''],
             [Some ''pending'', Some ''processing'', Some ''completed''],
             [Some ''pending'', Some ''processing'', Some ''failed'']}"
  using assms
  by (cases "result env"; cases work)
     (auto simp: async_generate_image_def call_webhook_def Let_def status_trace_def
        get_task_update_task get_task_callback apply_fields_def)

text \<open>
  Claim C2, amended. For a task that is \<open>pending\<close> in the store, the statuses that one
  worker run writes (the runner's transitions, the notifier's payload handled by the
  receiver, the fallback), read in order with repetitions dropped, form a subsequence of
  pending, processing, completed or of pending, processing, failed; so within the run no
  write leaves a terminal status. The store and the receiver themselves check nothing:
  \<open>update_task\<close> stores whatever status it is given.
\<close>

theorem C2_worker_status_sequence:
  assumes "get_task db tid = Some t" and "status t = ''pending''"
  shows "subseq (remdups_adj (status_trace tid
           (db # async_generate_image isoformat fromisoformat work env t_payload t_fallback tid db)))
           [Some ''pending'', Some ''processing'', Some ''completed'']
       \<or> subseq (remdups_adj (status_trace tid
           (db # async_generate_image isoformat fromisoformat work env t_payload t_fallback tid db)))
           [Some ''pending'', Some ''processing'', Some ''failed'']"
  using worker_trace_cases[OF assms, of isoformat fromisoformat work env t_payload t_fallback]
  by auto

theorem C2_worker_status_sequence_witness:
  "get_task [sample_row] ''t1'' = Some sample_row \<and> status sample_row = ''pending''
   \<and> (subseq (remdups_adj (status_trace ''t1''
           ([sample_row] # async_generate_image isoformat_sample fromisoformat_sample None
               (sample_delivery True TimeoutException) 200 400 ''t1'' [sample_row])))
           [Some ''pending'', Some ''processing'', Some ''completed'']
       \<or> subseq (remdups_adj (status_trace ''t1''
           ([sample_row] # async_generate_image isoformat_sample fromisoformat_sample None
               (sample_delivery True TimeoutException) 200 400 ''t1'' [sample_row])))
           [Some ''pending'', Some ''processing'', Some ''failed''])"
proof -
  have h2: "status sample_row = ''pending''"
    by (simp add: sample_row_def)
  show ?thesis
    using get_sample_row h2
      C2_worker_status_sequence
        [where db = "[sample_row]" and tid = "''t1''" and t = sample_row
           and isoformat = isoformat_sample and fromisoformat = fromisoformat_sample
           and work = None and env = "sample_delivery True TimeoutException"
           and t_payload = 200 and t_fallback = 400]
    by simp
qed

section \<open>Listing\<close>

lemma order_by_created_desc_sorted:
  "sorted_wrt (\<lambda>a b. created_at b \<le> created_at a) (order_by_created_desc ts)"
proof -
  have "sorted (map created_at (sort_key created_at (rev ts)))" by simp
  then have "sorted_wrt (\<lambda>a b. created_at a \<le> created_at b) (sort_key created_at (rev ts))"
    by (simp add: sorted_map)
  then show ?thesis
    unfolding order_by_created_desc_def by (simp add: sorted_wrt_rev)
qed

lemma set_order_by_created_desc: "set (order_by_created_desc ts) = set ts"
  by (simp add: order_by_created_desc_def)

lemma length_order_by_created_desc: "length (order_by_created_desc ts) = length ts"
  by (simp add: order_by_created_desc_def)

lemma order_by_created_desc_split:
  "\<forall>p\<in>set (take n (order_by_created_desc ts)).
     \<forall>r\<in>set (drop n (order_by_created_desc ts)). created_at r \<le> created_at p"
proof -
  have "sorted_wrt (\<lambda>a b. created_at b \<le> created_at a)
          (take n (order_by_created_desc ts) @ drop n (order_by_created_desc ts))"
    using order_by_created_desc_sorted[of ts] by simp
  then show ?thesis unfolding sorted_wrt_append by blast
qed

text \<open>
  Claim C9, as stated: the total is the number of matching rows whatever the limit and the
  offset are. An offset of \<open>2^63\<close> is not an SQLite integer: \<open>list_tasks\<close> raises
  \<open>OverflowError\<close> and returns no total, and the endpoint, which accepts every offset from 0
  on, answers with status 500.
\<close>

theorem C9_counterexample:
  "list_tasks sample_store (Some ''completed'') None None 10 9223372036854775808
     = Inl OverflowError
   \<and> api_list_tasks isoformat_sample sample_store (Some ''completed'') None None 10
        9223372036854775808
     = Inl (HTTPException 500)"
  by (simp add: list_tasks_def api_list_tasks_def sqlite_integer_def Let_def)

text \<open>
  Claim C9, amended. For every store and every filter, \<open>list_tasks\<close> with a limit between 1
  and 1000 and offset 0 returns the number of rows that match the filters and a page of
  them: as many as the limit allows, each created no earlier than the rows after it, and
  no row left out is newer than a row of the page. The endpoint returns the same total and
  the same rows as dictionaries. And for every limit and offset that are SQLite integers
  (64 bits, signed) the total returned is that same number.
\<close>

theorem C9_list_tasks_page:
  "(1 \<le> limit \<and> limit \<le> 1000 \<longrightarrow>
      (\<exists>page rest.
          list_tasks db st sid rid limit 0 = Inr (length (filter (matches st sid rid) db), page)
        \<and> length page \<le> nat limit
        \<and> length page = min (nat limit) (length (filter (matches st sid rid) db))
        \<and> sorted_wrt (\<lambda>a b. created_at b \<le> created_at a) page
        \<and> list_all (matches st sid rid) page
        \<and> mset (page @ rest) = mset (filter (matches st sid rid) db)
        \<and> (\<forall>p\<in>set page. \<forall>r\<in>set rest. created_at r \<le> created_at p)
        \<and> api_list_tasks isoformat db st sid rid limit 0
            = Inr (length (filter (matches st sid rid) db), map (task_to_dict isoformat) page)))
   \<and> (sqlite_integer any_limit \<and> sqlite_integer any_offset \<longrightarrow>
        (\<exists>page. list_tasks db st sid rid any_limit any_offset
                  = Inr (length (filter (matches st sid rid) db), page)))"
proof (intro conjI impI)
  assume lim: "1 \<le> limit \<and> limit \<le> 1000"
  let ?q = "filter (matches st sid rid) db"
  let ?page = "take (nat limit) (order_by_created_desc ?q)"
  let ?rest = "drop (nat limit) (order_by_created_desc ?q)"
  have r: "list_tasks db st sid rid limit 0 = Inr (length ?q, ?page)"
    using lim by (simp add: list_tasks_def Let_def sqlite_integer_def)
  have 1: "length ?page \<le> nat limit" by simp
  have len: "length ?page = min (nat limit) (length ?q)"
    by (simp add: length_order_by_created_desc min.commute)
  have 2: "sorted_wrt (\<lambda>a b. created_at b \<le> created_at a) ?page"
    by (rule sorted_wrt_take) (rule order_by_created_desc_sorted)
  have "set ?page \<subseteq> set ?q"
    using set_take_subset[of "nat limit" "order_by_created_desc ?q"]
    by (simp add: set_order_by_created_desc)
  then have 3: "list_all (matches st sid rid) ?page"
    unfolding list_all_iff by auto
  have 4: "mset (?page @ ?rest) = mset ?q"
    by (simp add: order_by_created_desc_def)
  have 5: "\<forall>p\<in>set ?page. \<forall>r\<in>set ?rest. created_at r \<le> created_at p"
    by (rule order_by_created_desc_split)
  have 6: "api_list_tasks isoformat db st sid rid limit 0
             = Inr (length ?q, map (task_to_dict isoformat) ?page)"
    using lim r by (simp add: api_list_tasks_def)
  show "\<exists>page rest.
          list_tasks db st sid rid limit 0 = Inr (length ?q, page)
        \<and> length page \<le> nat limit
        \<and> length page = min (nat limit) (length ?q)
        \<and> sorted_wrt (\<lambda>a b. created_at b \<le> created_at a) page
        \<and> list_all (matches st sid rid) page
        \<and> mset (page @ rest) = mset ?q
        \<and> (\<forall>p\<in>set page. \<forall>r\<in>set rest. created_at r \<le> created_at p)
        \<and> api_list_tasks isoformat db st sid rid limit 0
            = Inr (length ?q, map (task_to_dict isoformat) page)"
    using r 1 len 2 3 4 5 6 by blast
next
  assume "sqlite_integer any_limit \<and> sqlite_integer any_offset"
  then show "\<exists>page. list_tasks db st sid rid any_limit any_offset
                      = Inr (length (filter (matches st sid rid) db), page)"
    by (simp add: list_tasks_def Let_def)
qed

theorem C9_list_tasks_page_witness:
  "(1::int) \<le> 2 \<and> (2::int) \<le> 1000 \<and> sqlite_integer 7 \<and> sqlite_integer 3
   \<and> (\<exists>page rest.
          list_tasks sample_store (Some ''completed'') None None 2 0 = Inr (3, page)
        \<and> length page = 2
        \<and> sorted_wrt (\<lambda>a b. created_at b \<le> created_at a) page
        \<and> list_all (matches (Some ''completed'') None None) page
        \<and> mset (page @ rest) = mset (filter (matches (Some ''completed'') None None) sample_store)
        \<and> (\<forall>p\<in>set page. \<forall>r\<in>set rest. created_at r \<le> created_at p)
        \<and> api_list_tasks isoformat_sample sample_store (Some ''completed'') None None 2 0
            = Inr (3, map (task_to_dict isoformat_sample) page))
   \<and> (\<exists>page. list_tasks sample_store (Some ''completed'') None None 7 3 = Inr (3, page))"
proof -
  have h1: "(1::int) \<le> 2 \<and> (2::int) \<le> 1000" by simp
  have h2: "sqlite_integer 7 \<and> sqlite_integer 3" by (simp add: sqlite_integer_def)
  have n: "length (filter (matches (Some ''completed'') None None) sample_store) = 3"
    by (simp add: sample_store_def sample_row_def matches_def truthy_def)
  show ?thesis
    using h1 h2
      C9_list_tasks_page
        [where limit = 2 and db = sample_store and st = "Some ''completed''" and sid = None
           and rid = None and any_limit = 7 and any_offset = 3 and isoformat = isoformat_sample]
    unfolding n by simp blast
qed

section \<open>The cache upsert\<close>

lemma merge_or_append_absent:
  assumes "\<not> list_ex (\<lambda>t. dict_get t ''task_id'' = dict_get info ''task_id'') tasks"
  shows "merge_or_append tasks info = tasks @ [info]"
  using assms by (induction tasks) auto

lemma merge_or_append_present:
  assumes "list_ex (\<lambda>t. dict_get t ''task_id'' = dict_get info ''task_id'') tasks"
  shows "first_index tasks (dict_get info ''task_id'') < length tasks
       \<and> dict_get (tasks ! first_index tasks (dict_get info ''task_id'')) ''task_id''
           = dict_get info ''task_id''
       \<and> merge_or_append tasks info
           = tasks[first_index tasks (dict_get info ''task_id'')
                     := tasks ! first_index tasks (dict_get info ''task_id'') ++ info]"
  using assms by (induction tasks) (auto simp: first_index_def)

lemma length_merge_or_append:
  "length (merge_or_append tasks info) =
     (if list_ex (\<lambda>t. dict_get t ''task_id'' = dict_get info ''task_id'') tasks
      then length tasks else Suc (length tasks))"
  by (induction tasks) auto

text \<open>
  Claim C6. The upsert merges by \<open>task_id\<close>. When some dictionary of the cache has the
  incoming \<open>task_id\<close>, the first such dictionary is replaced by its merge with the
  snapshot and nothing else changes: in the merged dictionary every key of the snapshot has
  the snapshot's value and every other key keeps its former value. When no dictionary has
  that \<open>task_id\<close>, the snapshot is appended. A missing list counts as empty, and a session
  state that is \<open>None\<close> is left alone.
\<close>

theorem C6_upsert_merges:
  assumes "list_ex (\<lambda>t. dict_get t ''task_id'' = dict_get info ''task_id'') tasks"
      and "\<not> list_ex (\<lambda>t. dict_get t ''task_id'' = dict_get info ''task_id'') others"
  shows "first_index tasks (dict_get info ''task_id'') < length tasks
       \<and> merge_or_append tasks info
           = tasks[first_index tasks (dict_get info ''task_id'')
                     := tasks ! first_index tasks (dict_get info ''task_id'') ++ info]
       \<and> (merge_or_append tasks info ! first_index tasks (dict_get info ''task_id'')) k
           = (case info k of
                Some v \<Rightarrow> Some v
              | None \<Rightarrow> (tasks ! first_index tasks (dict_get info ''task_id'')) k)
       \<and> merge_or_append others info = others @ [info]
       \<and> get_tasks_from_session_state (update_task_in_session_state (Some s) info)
           = merge_or_append (get_tasks_from_session_state (Some s)) info
       \<and> update_task_in_session_state None info = None"
proof -
  let ?i = "first_index tasks (dict_get info ''task_id'')"
  note p = merge_or_append_present[OF assms(1)]
  have "(merge_or_append tasks info ! ?i) k = (tasks ! ?i ++ info) k"
    using p by simp
  also have "\<dots> = (case info k of Some v \<Rightarrow> Some v | None \<Rightarrow> (tasks ! ?i) k)"
    by (simp add: map_add_def split: option.splits)
  finally have m: "(merge_or_append tasks info ! ?i) k
      = (case info k of Some v \<Rightarrow> Some v | None \<Rightarrow> (tasks ! ?i) k)" .
  have s: "get_tasks_from_session_state (update_task_in_session_state (Some s) info)
           = merge_or_append (get_tasks_from_session_state (Some s)) info"
    by (simp add: get_tasks_from_session_state_def update_task_in_session_state_def)
  have n: "update_task_in_session_state None info = None"
    by (simp add: update_task_in_session_state_def)
  show ?thesis using p m merge_or_append_absent[OF assms(2)] s n by blast
qed

theorem C6_upsert_merges_witness:
  "list_ex (\<lambda>t. dict_get t ''task_id'' = dict_get (map_of [(''task_id'', PStr ''t2''), (''status'', PStr ''completed'')]) ''task_id'')
      [sample_entry ''t1'' ''pending'' ''I'', sample_entry ''t2'' ''pending'' ''II'']
   \<and> \<not> list_ex (\<lambda>t. dict_get t ''task_id'' = dict_get (map_of [(''task_id'', PStr ''t2''), (''status'', PStr ''completed'')]) ''task_id'')
      [sample_entry ''t1'' ''pending'' ''I'']
   \<and> first_index [sample_entry ''t1'' ''pending'' ''I'', sample_entry ''t2'' ''pending'' ''II'']
        (dict_get (map_of [(''task_id'', PStr ''t2''), (''status'', PStr ''completed'')]) ''task_id'') = 1
   \<and> (merge_or_append [sample_entry ''t1'' ''pending'' ''I'', sample_entry ''t2'' ''pending'' ''II'']
         (map_of [(''task_id'', PStr ''t2''), (''status'', PStr ''completed'')]) ! 1) ''status''
       = Some (PStr ''completed'')
   \<and> (merge_or_append [sample_entry ''t1'' ''pending'' ''I'', sample_entry ''t2'' ''pending'' ''II'']
         (map_of [(''task_id'', PStr ''t2''), (''status'', PStr ''completed'')]) ! 1) ''created_at''
       = Some (PStr ''II'')
   \<and> merge_or_append [sample_entry ''t1'' ''pending'' ''I'']
        (map_of [(''task_id'', PStr ''t2''), (''status'', PStr ''completed'')])
       = [sample_entry ''t1'' ''pending'' ''I'',
          map_of [(''task_id'', PStr ''t2''), (''status'', PStr ''completed'')]]"
proof -
  let ?info = "map_of [(''task_id'', PStr ''t2''), (''status'', PStr ''completed'')] :: entry"
  let ?tasks = "[sample_entry ''t1'' ''pending'' ''I'', sample_entry ''t2'' ''pending'' ''II'']"
  let ?others = "[sample_entry ''t1'' ''pending'' ''I'']"
  have h1: "list_ex (\<lambda>t. dict_get t ''task_id'' = dict_get ?info ''task_id'') ?tasks"
    by (simp add: dict_get_def sample_entry_def)
  have h2: "\<not> list_ex (\<lambda>t. dict_get t ''task_id'' = dict_get ?info ''task_id'') ?others"
    by (simp add: dict_get_def sample_entry_def)
  have i: "first_index ?tasks (dict_get ?info ''task_id'') = 1"
    by (simp add: first_index_def dict_get_def sample_entry_def)
  have a: "(?tasks ! 1) ''created_at'' = Some (PStr ''II'')"
    by (simp add: sample_entry_def)
  show ?thesis
    using h1 h2 i a
      C6_upsert_merges [OF h1 h2, of "''status''" "sample_state []"]
      C6_upsert_merges [OF h1 h2, of "''created_at''" "sample_state []"]
    by simp
qed

section \<open>Eviction\<close>

lemma is_unfinished_sample_entry:
  "is_unfinished (sample_entry tid st c) = (st = ''pending'' \<or> st = ''processing'')"
  by (simp add: is_unfinished_def sample_entry_def dict_get_def)


lemma length_sample_cache: "length (sample_cache p c) = p + c"
  by (simp add: sample_cache_def)

lemma created_key_text: "created_key t = created_text t"
  by (simp add: created_key_def dict_get_default_def split: option.splits pyval.splits)

lemma sort_created_desc_text:
  assumes "length ts < 2 \<or> list_all (\<lambda>t. t ''created_at'' \<noteq> Some PNone) ts"
  shows "sort_created_desc ts = Inr (rev (sort_key created_text (rev ts)))"
proof -
  have k: "created_key = (\<lambda>t. created_text t)"
    by (rule ext) (rule created_key_text)
  have "\<not> (2 \<le> length ts \<and> list_ex (\<lambda>t. dict_get_default t ''created_at'' (PStr []) = PNone) ts)"
    using assms
    by (auto simp: list_ex_iff list_all_iff dict_get_default_def split: option.splits)
  then show ?thesis
    by (simp add: sort_created_desc_def k)
qed

lemma insort_key_last:
  assumes "\<forall>y\<in>set xs. f y < f x"
  shows "insort_key f x xs = xs @ [x]"
  using assms by (induction xs) (auto simp: not_le)

lemma sort_key_rev_increasing:
  fixes f :: "'a \<Rightarrow> 'b::linorder"
  assumes "sorted_wrt (\<lambda>a b. f a < f b) xs"
  shows "sort_key f (rev xs) = xs"
  using assms
proof (induction xs rule: rev_induct)
  case Nil
  then show ?case by simp
next
  case (snoc x xs)
  then have a: "sorted_wrt (\<lambda>a b. f a < f b) xs" and b: "\<forall>y\<in>set xs. f y < f x"
    by (auto simp: sorted_wrt_append)
  show ?case using snoc.IH[OF a] insort_key_last[of xs f x] b by simp
qed

lemma replicate_less:
  "m < n \<Longrightarrow> replicate m (c::char) < replicate n c"
proof (induction m arbitrary: n)
  case 0
  then obtain k where "n = Suc k" by (cases n) auto
  then show ?case by simp
next
  case (Suc m)
  then obtain k where n: "n = Suc k" and "m < k" by (cases n) auto
  then have "replicate m c < replicate k c" using Suc.IH by blast
  then show ?case unfolding n by simp
qed

lemma created_text_sample_entry: "created_text (sample_entry tid st c) = c"
  by (simp add: sample_entry_def)




lemma cleanup_list_text:
  assumes "MAX_TASKS_IN_SESSION_STATE < length tasks"
      and "length (filter (\<lambda>t. \<not> is_unfinished t) tasks) < 2
           \<or> list_all (\<lambda>t. t ''created_at'' \<noteq> Some PNone) (filter (\<lambda>t. \<not> is_unfinished t) tasks)"
  shows "cleanup_list tasks =
           Inr (filter is_unfinished tasks
                @ take (20 - length (filter is_unfinished tasks))
                    (rev (sort_key created_text (rev (filter (\<lambda>t. \<not> is_unfinished t) tasks)))))"
proof -
  have "nat (max 0 (int MAX_TASKS_IN_SESSION_STATE - int (length (filter is_unfinished tasks))))
          = 20 - length (filter is_unfinished tasks)"
    by (simp add: MAX_TASKS_IN_SESSION_STATE_def)
  then show ?thesis
    using assms(1) sort_created_desc_text[OF assms(2)]
    by (simp add: cleanup_list_def Let_def)
qed







section \<open>Dictionaries without an unfinished status\<close>


lemma pending_task_ids_append:
  "pending_task_ids (xs @ ys) = pending_task_ids xs @ pending_task_ids ys"
  by (induction xs) (auto split: pyval.splits)


lemma pending_task_ids_none:
  assumes "list_all (\<lambda>t. \<not> is_unfinished t) ts"
  shows "pending_task_ids ts = []"
  using assms by (induction ts) (auto split: pyval.splits)




section \<open>Reconciliation\<close>

lemma get_task_id: "get_task db j = Some r \<Longrightarrow> id_t r = j"
  unfolding get_task_def by (induction db) (auto split: if_splits)

lemma task_id_of_snapshot [simp]:
  "dict_get (e ++ task_to_dict isoformat r) ''task_id'' = PStr (id_t r)"
  by (simp add: dict_get_def task_to_dict_def map_add_def)

lemma task_id_of_dict [simp]:
  "dict_get (task_to_dict isoformat r) ''task_id'' = PStr (id_t r)"
  by (simp add: dict_get_def task_to_dict_def)

lemma map_add_twice: "(x ++ m) ++ m = x ++ m"
  by (rule ext) (simp add: map_add_def split: option.splits)

lemma merge_or_append_map:
  assumes "distinct_ids M"
      and "dict_get info ''task_id'' \<in> set (map (\<lambda>t. dict_get t ''task_id'') M)"
  shows "merge_or_append M info
           = map (\<lambda>e. if dict_get e ''task_id'' = dict_get info ''task_id'' then e ++ info else e) M"
  using assms
proof (induction M)
  case Nil
  then show ?case by simp
next
  case (Cons e M)
  show ?case
  proof (cases "dict_get e ''task_id'' = dict_get info ''task_id''")
    case True
    have "dict_get info ''task_id'' \<notin> (\<lambda>t. dict_get t ''task_id'') ` set M"
      using Cons.prems(1) True by (simp add: distinct_ids_def)
    then have "\<forall>x\<in>set M. dict_get x ''task_id'' \<noteq> dict_get info ''task_id''"
      unfolding image_iff by metis
    then have "map (\<lambda>e. if dict_get e ''task_id'' = dict_get info ''task_id'' then e ++ info else e) M = M"
      by (simp add: map_idI)
    with True show ?thesis by simp
  next
    case False
    then show ?thesis using Cons by (auto simp: distinct_ids_def)
  qed
qed

lemma refreshed_id [simp]:
  "dict_get (refreshed isoformat db ids e) ''task_id'' = dict_get e ''task_id''"
  by (auto simp: refreshed_def dest: get_task_id split: pyval.splits option.splits)

lemma map_ids_refreshed [simp]:
  "map (\<lambda>t. dict_get t ''task_id'') (map (refreshed isoformat db ids) M)
     = map (\<lambda>t. dict_get t ''task_id'') M"
  by (simp add: comp_def)

lemma refreshed_Nil [simp]: "refreshed isoformat db [] e = e"
  by (simp add: refreshed_def split: pyval.splits)

lemma sync_loop_map:
  assumes "distinct_ids M"
      and "\<forall>j\<in>set ids. PStr j \<in> set (map (\<lambda>t. dict_get t ''task_id'') M)"
  shows "fst (sync_loop isoformat db ids (Some (s \<lparr> image_generation_tasks := Some M \<rparr>), u, c, p))
           = Some (s \<lparr> image_generation_tasks := Some (map (refreshed isoformat db ids) M) \<rparr>)"
  using assms
proof (induction ids arbitrary: M u c p)
  case Nil
  then show ?case by (simp add: map_idI)
next
  case (Cons j ids)
  show ?case
  proof (cases "get_task db j")
    case None
    have "map (refreshed isoformat db (j # ids)) M = map (refreshed isoformat db ids) M"
      using None by (auto simp: refreshed_def split: pyval.splits option.splits)
    then show ?thesis using None Cons by simp
  next
    case (Some r)
    let ?snap = "task_to_dict isoformat r"
    let ?M1 = "map (\<lambda>e. if dict_get e ''task_id'' = PStr j then e ++ ?snap else e) M"
    have idr: "id_t r = j" using Some by (rule get_task_id)
    have m: "merge_or_append M ?snap = ?M1"
      using merge_or_append_map[OF Cons.prems(1), of ?snap] Cons.prems(2) idr by simp
    have ids1: "map (\<lambda>t. dict_get t ''task_id'') ?M1 = map (\<lambda>t. dict_get t ''task_id'') M"
      using idr by (auto simp: comp_def)
    have d1: "distinct_ids ?M1"
      using Cons.prems(1) unfolding distinct_ids_def ids1 .
    have in1: "\<forall>i\<in>set ids. PStr i \<in> set (map (\<lambda>t. dict_get t ''task_id'') ?M1)"
      using Cons.prems(2) unfolding ids1 by simp
    have comp: "map (refreshed isoformat db ids) ?M1 = map (refreshed isoformat db (j # ids)) M"
      using Some idr
      by (auto simp: refreshed_def map_add_twice split: pyval.splits option.splits)
    have "fst (sync_loop isoformat db (j # ids) (Some (s \<lparr> image_generation_tasks := Some M \<rparr>), u, c, p))
        = fst (sync_loop isoformat db ids
                (Some (s \<lparr> image_generation_tasks := Some ?M1 \<rparr>), u + 1,
                 (if status r = ''completed'' then c + 1 else c),
                 (if status r = ''completed'' then p
                  else if status r = ''pending'' \<or> status r = ''processing'' then p + 1 else p)))"
      using Some m by (simp add: update_task_in_session_state_def)
    also have "\<dots> = Some (s \<lparr> image_generation_tasks := Some (map (refreshed isoformat db ids) ?M1) \<rparr>)"
      by (rule Cons.IH[OF d1 in1])
    finally show ?thesis using comp by simp
  qed
qed

lemma pending_task_ids_mem:
  "j \<in> set (pending_task_ids M) \<longleftrightarrow>
     (\<exists>e\<in>set M. dict_get e ''task_id'' = PStr j \<and> is_unfinished e \<and> j \<noteq> [])"
  by (induction M) (auto split: pyval.splits)

lemma pending_ids_in_cache:
  "\<forall>j\<in>set (pending_task_ids M). PStr j \<in> set (map (\<lambda>t. dict_get t ''task_id'') M)"
  by (force simp: pending_task_ids_mem)

text \<open>A second pass over what the first pass left changes nothing.\<close>

lemma refreshed_again:
  assumes "set R \<subseteq> set (map (refreshed isoformat db (pending_task_ids M)) M)"
  shows "map (refreshed isoformat db (pending_task_ids R)) R = R"
proof (rule map_idI)
  fix x assume x: "x \<in> set R"
  then obtain e where e: "e \<in> set M" "x = refreshed isoformat db (pending_task_ids M) e"
    using assms by auto
  show "refreshed isoformat db (pending_task_ids R) x = x"
  proof (cases "dict_get x ''task_id''")
    case PNone
    then show ?thesis by (simp add: refreshed_def)
  next
    case (PStr j)
    show ?thesis
    proof (cases "j \<in> set (pending_task_ids R) \<and> get_task db j \<noteq> None")
      case False
      then show ?thesis using PStr by (auto simp: refreshed_def)
    next
      case True
      then obtain r where r: "get_task db j = Some r" by auto
      have ide: "dict_get e ''task_id'' = PStr j" using PStr e(2) by simp
      have "j \<in> set (pending_task_ids M)"
      proof (rule ccontr)
        assume n: "j \<notin> set (pending_task_ids M)"
        from True obtain y where y: "y \<in> set R" "dict_get y ''task_id'' = PStr j"
            "is_unfinished y" "j \<noteq> []"
          by (auto simp: pending_task_ids_mem)
        then obtain z where z: "z \<in> set M" "y = refreshed isoformat db (pending_task_ids M) z"
          using assms by auto
        have "dict_get z ''task_id'' = PStr j" using y(2) z(2) by simp
        then have "y = z" using z(2) n by (simp add: refreshed_def)
        then have "j \<in> set (pending_task_ids M)"
          using z(1) y by (auto simp: pending_task_ids_mem)
        with n show False by contradiction
      qed
      then have "x = e ++ task_to_dict isoformat r"
        using e(2) ide r by (simp add: refreshed_def)
      then show ?thesis using PStr True r by (simp add: refreshed_def map_add_twice)
    qed
  qed
qed

lemma distinct_ids_refreshed:
  "distinct_ids (map (refreshed isoformat db ids) M) = distinct_ids M"
  by (simp only: distinct_ids_def map_ids_refreshed)

lemma cleanup_list_subset:
  assumes "cleanup_list T = Inr K"
  shows "set K \<subseteq> set T"
proof (cases "length T \<le> MAX_TASKS_IN_SESSION_STATE")
  case True
  then show ?thesis using assms by (simp add: cleanup_list_def)
next
  case False
  then obtain S where S: "sort_created_desc (filter (\<lambda>t. \<not> is_unfinished t) T) = Inr S"
      and K: "K = filter is_unfinished T
                 @ take (nat (max 0 (int MAX_TASKS_IN_SESSION_STATE - int (length (filter is_unfinished T))))) S"
    using assms by (auto simp: cleanup_list_def Let_def split: sum.splits)
  have "set S = set (filter (\<lambda>t. \<not> is_unfinished t) T)"
    using S by (auto simp: sort_created_desc_def split: if_splits)
  then have "set (take (nat (max 0 (int MAX_TASKS_IN_SESSION_STATE - int (length (filter is_unfinished T))))) S) \<subseteq> set T"
    using set_take_subset[of _ S] by fastforce
  then show ?thesis using K by auto
qed

lemma cleanup_list_distinct:
  assumes "cleanup_list T = Inr K" and "distinct_ids T"
  shows "distinct_ids K"
proof (cases "length T \<le> MAX_TASKS_IN_SESSION_STATE")
  case True
  then show ?thesis using assms by (simp add: cleanup_list_def)
next
  case False
  let ?f = "\<lambda>t. dict_get t ''task_id''"
  let ?P = "filter is_unfinished T"
  let ?C = "filter (\<lambda>t. \<not> is_unfinished t) T"
  from False obtain S k where S: "sort_created_desc ?C = Inr S" and K: "K = ?P @ take k S"
    using assms(1) by (auto simp: cleanup_list_def Let_def split: sum.splits)
  have "mset S = mset ?C"
    using S by (auto simp: sort_created_desc_def split: if_splits)
  then have "mset (?P @ S) = mset T"
    using multiset_partition[of "mset T" is_unfinished] by simp
  then have "mset (map ?f (?P @ S)) = mset (map ?f T)"
    by (metis mset_map)
  then have d: "distinct (map ?f (?P @ S))"
    using assms(2) unfolding distinct_ids_def by (metis mset_eq_imp_distinct_iff)
  have "distinct (map ?f ?P @ take k (map ?f S))"
    using d set_take_subset[of k "map ?f S"] by auto
  then show ?thesis unfolding K distinct_ids_def by (simp add: take_map)
qed

lemma cleanup_list_again:
  assumes "cleanup_list T = Inr K"
  shows "length K \<le> MAX_TASKS_IN_SESSION_STATE \<or> cleanup_list K = Inr K"
proof (cases "length T \<le> MAX_TASKS_IN_SESSION_STATE")
  case True
  then show ?thesis using assms by (simp add: cleanup_list_def)
next
  case False
  let ?P = "filter is_unfinished T"
  from False obtain S where S: "sort_created_desc (filter (\<lambda>t. \<not> is_unfinished t) T) = Inr S"
    and K: "K = ?P @ take (nat (max 0 (int MAX_TASKS_IN_SESSION_STATE - int (length ?P)))) S"
    using assms by (auto simp: cleanup_list_def Let_def split: sum.splits)
  show ?thesis
  proof (cases "length ?P \<le> MAX_TASKS_IN_SESSION_STATE")
    case True
    then have "length K \<le> MAX_TASKS_IN_SESSION_STATE" unfolding K by auto
    then show ?thesis by simp
  next
    case False
    then have KP: "K = ?P" unfolding K by simp
    have "filter is_unfinished ?P = ?P" "filter (\<lambda>t. \<not> is_unfinished t) ?P = []"
      by (simp_all)
    then have "cleanup_list ?P = Inr ?P"
      using False by (simp add: cleanup_list_def Let_def sort_created_desc_def)
    then show ?thesis using KP by simp
  qed
qed

lemma distinct_ids_merge_or_append:
  assumes "distinct_ids T"
  shows "distinct_ids (merge_or_append T info)"
proof (cases "list_ex (\<lambda>t. dict_get t ''task_id'' = dict_get info ''task_id'') T")
  case True
  then have "dict_get info ''task_id'' \<in> set (map (\<lambda>t. dict_get t ''task_id'') T)"
    unfolding list_ex_iff set_map image_iff by metis
  then have m: "merge_or_append T info
      = map (\<lambda>e. if dict_get e ''task_id'' = dict_get info ''task_id'' then e ++ info else e) T"
    by (rule merge_or_append_map[OF assms])
  have "\<And>e. dict_get e ''task_id'' = dict_get info ''task_id''
          \<Longrightarrow> dict_get (e ++ info) ''task_id'' = dict_get e ''task_id''"
    by (auto simp: dict_get_def map_add_def split: option.splits)
  then have "map (\<lambda>t. dict_get t ''task_id'') (merge_or_append T info)
               = map (\<lambda>t. dict_get t ''task_id'') T"
    unfolding m by (induction T) auto
  then show ?thesis using assms by (simp add: distinct_ids_def)
next
  case False
  then have "merge_or_append T info = T @ [info]"
    by (rule merge_or_append_absent)
  moreover have "dict_get info ''task_id'' \<notin> set (map (\<lambda>t. dict_get t ''task_id'') T)"
    using False unfolding list_ex_iff set_map image_iff by metis
  ultimately show ?thesis using assms by (simp add: distinct_ids_def)
qed

lemma sync_result:
  assumes "distinct_ids T"
  shows "snd (sync_pending_tasks isoformat db (Some (s \<lparr> image_generation_tasks := Some T \<rparr>)))
           = Some (s \<lparr> image_generation_tasks := Some (sync_list isoformat db T) \<rparr>)"
proof (cases "pending_task_ids T = []")
  case True
  then show ?thesis
    by (simp add: sync_pending_tasks_def get_tasks_from_session_state_def sync_list_def)
next
  case False
  let ?T1 = "map (refreshed isoformat db (pending_task_ids T)) T"
  obtain ss1 u c p where loop:
    "sync_loop isoformat db (pending_task_ids T)
       (Some (s \<lparr> image_generation_tasks := Some T \<rparr>), 0, 0, 0) = (ss1, u, c, p)"
    by (metis prod_cases4)
  have "fst (sync_loop isoformat db (pending_task_ids T)
               (Some (s \<lparr> image_generation_tasks := Some T \<rparr>), 0, 0, 0))
          = Some (s \<lparr> image_generation_tasks := Some ?T1 \<rparr>)"
    by (rule sync_loop_map[OF assms pending_ids_in_cache])
  then have ss1: "ss1 = Some (s \<lparr> image_generation_tasks := Some ?T1 \<rparr>)"
    using loop by simp
  show ?thesis
    using False loop
    by (simp add: sync_pending_tasks_def get_tasks_from_session_state_def ss1
          cleanup_old_tasks_def Let_def sync_list_def split: sum.splits)
qed

lemma sync_list_small:
  assumes "map (refreshed isoformat db (pending_task_ids X)) X = X"
      and "length X \<le> MAX_TASKS_IN_SESSION_STATE \<or> cleanup_list X = Inr X
           \<or> (\<exists>e. cleanup_list X = Inl e)"
  shows "sync_list isoformat db X = X"
  using assms by (auto simp: sync_list_def)

lemma sync_list_fixed:
  assumes "distinct_ids T"
  shows "sync_list isoformat db (sync_list isoformat db T) = sync_list isoformat db T
       \<and> distinct_ids (sync_list isoformat db T)"
proof -
  define T1 where "T1 = map (refreshed isoformat db (pending_task_ids T)) T"
  have dT1: "distinct_ids T1"
    using assms unfolding T1_def by (simp only: distinct_ids_refreshed)
  have lT1: "length T1 = length T" by (simp add: T1_def)
  have again1: "map (refreshed isoformat db (pending_task_ids T1)) T1 = T1"
    by (rule refreshed_again[where M = T]) (simp add: T1_def)
  consider (idle) "pending_task_ids T = []"
    | (small) "pending_task_ids T \<noteq> []" "length T \<le> MAX_TASKS_IN_SESSION_STATE"
    | (failed) e where "pending_task_ids T \<noteq> []" "\<not> length T \<le> MAX_TASKS_IN_SESSION_STATE"
        "cleanup_list T1 = Inl e"
    | (cleaned) K where "pending_task_ids T \<noteq> []" "\<not> length T \<le> MAX_TASKS_IN_SESSION_STATE"
        "cleanup_list T1 = Inr K"
    by (cases "cleanup_list T1") auto
  then show ?thesis
  proof cases
    case idle
    then have "sync_list isoformat db T = T" by (simp add: sync_list_def)
    then show ?thesis using assms by simp
  next
    case small
    then have r: "sync_list isoformat db T = T1" by (simp add: sync_list_def T1_def)
    have "sync_list isoformat db T1 = T1"
      using again1 small(2) lT1 by (intro sync_list_small) auto
    then show ?thesis using r dT1 by simp
  next
    case failed
    then have r: "sync_list isoformat db T = T1" by (simp add: sync_list_def T1_def)
    have "sync_list isoformat db T1 = T1"
      using again1 failed(3) by (intro sync_list_small) auto
    then show ?thesis using r dT1 by simp
  next
    case cleaned
    then have r: "sync_list isoformat db T = K" by (simp add: sync_list_def T1_def)
    have sub: "set K \<subseteq> set (map (refreshed isoformat db (pending_task_ids T)) T)"
      using cleanup_list_subset[OF cleaned(3)] by (simp add: T1_def)
    have again: "map (refreshed isoformat db (pending_task_ids K)) K = K"
      using sub by (rule refreshed_again)
    have dK: "distinct_ids K" using cleaned(3) dT1 by (rule cleanup_list_distinct)
    have "length K \<le> MAX_TASKS_IN_SESSION_STATE \<or> cleanup_list K = Inr K"
      using cleaned(3) by (rule cleanup_list_again)
    then have "sync_list isoformat db K = K"
      using again by (intro sync_list_small) auto
    then show ?thesis using r dK by simp
  qed
qed

lemma dup_cache_eq:
  "dup_cache = sample_entry ''c'' ''completed'' [] # dup_rest @ [sample_entry ''c'' ''pending'' []]"
proof -
  have "[0..<20] = 0 # [1..<20]" by (simp add: upt_conv_Cons)
  then show ?thesis by (simp add: dup_cache_def dup_rest_def sample_cache_def)
qed

lemma dup_rest_finished: "list_all (\<lambda>t. \<not> is_unfinished t) dup_rest"
  by (simp add: dup_rest_def list_all_iff is_unfinished_sample_entry)

lemma dup_rest_finished_rev: "list_all (\<lambda>t. \<not> is_unfinished t) (rev dup_rest)"
  using dup_rest_finished by (simp add: list_all_iff)

lemma dup_rest_filter:
  "filter is_unfinished dup_rest = []" "filter (\<lambda>t. \<not> is_unfinished t) dup_rest = dup_rest"
  using dup_rest_finished by (simp_all add: list_all_iff)

lemma length_dup_rest: "length dup_rest = 19"
  by (simp add: dup_rest_def)

lemma dup_get: "get_task dup_store ''c'' = Some (hd dup_store)"
  by (simp add: get_task_def dup_store_def sample_row_def)

lemma dup_snapshot:
  "task_to_dict isoformat_sample (hd dup_store) ''status'' = Some (PStr ''completed'')"
  "task_to_dict isoformat_sample (hd dup_store) ''created_at'' = Some (PStr [])"
  "dict_get (task_to_dict isoformat_sample (hd dup_store)) ''task_id'' = PStr ''c''"
  by (simp_all add: task_to_dict_def dup_store_def sample_row_def opt_val_def isoformat_sample_def
        dict_get_def)

lemma task_id_sample_entry: "dict_get (sample_entry tid st c) ''task_id'' = PStr tid"
  by (simp add: dict_get_def sample_entry_def)

lemma dup_id: "id_t (hd dup_store) = ''c''"
  by (simp add: dup_store_def sample_row_def)

lemma dup_ids_one: "pending_task_ids [sample_entry ''c'' ''pending'' []] = [''c'']"
  by (simp add: is_unfinished_sample_entry task_id_sample_entry)

lemma dup_ids_first: "pending_task_ids dup_cache = [''c'']"
proof -
  have "pending_task_ids (sample_cache 0 20) = []"
    by (rule pending_task_ids_none) (simp add: sample_cache_def list_all_iff is_unfinished_sample_entry)
  moreover note dup_ids_one
  ultimately show ?thesis by (simp only: dup_cache_def pending_task_ids_append append_Nil)
qed

lemma dup_ids_second:
  "pending_task_ids (sample_entry ''c'' ''pending'' [] # rev dup_rest) = [''c'']"
proof -
  have "pending_task_ids (rev dup_rest) = []"
    by (rule pending_task_ids_none) (rule dup_rest_finished_rev)
  moreover note dup_ids_one
  ultimately show ?thesis
    using pending_task_ids_append[of "[sample_entry ''c'' ''pending'' []]" "rev dup_rest"]
    by (simp del: pending_task_ids.simps)
qed

lemma dup_merge_first:
  "merge_or_append dup_cache (task_to_dict isoformat_sample (hd dup_store))
     = (sample_entry ''c'' ''completed'' [] ++ task_to_dict isoformat_sample (hd dup_store))
         # dup_rest @ [sample_entry ''c'' ''pending'' []]"
  unfolding dup_cache_eq by (simp add: task_id_sample_entry dup_id)

lemma dup_merge_second:
  "merge_or_append (sample_entry ''c'' ''pending'' [] # rev dup_rest)
       (task_to_dict isoformat_sample (hd dup_store))
     = (sample_entry ''c'' ''pending'' [] ++ task_to_dict isoformat_sample (hd dup_store))
         # rev dup_rest"
  by (simp add: task_id_sample_entry dup_id)

lemma dup_sorted:
  "sorted_wrt (\<lambda>a b. created_text a < created_text b)
     ((sample_entry ''c'' ''completed'' [] ++ task_to_dict isoformat_sample (hd dup_store)) # dup_rest)"
proof -
  have t: "created_text (sample_entry ''c'' ''completed'' [] ++ task_to_dict isoformat_sample (hd dup_store)) = []"
    by (simp add: map_add_def dup_snapshot)
  have "sorted_wrt (\<lambda>m n. replicate m (CHR ''I'') < replicate n (CHR ''I'')) [1..<20]"
    by (rule sorted_wrt_mono_rel[OF _ sorted_wrt_upt]) (simp add: replicate_less)
  then have r: "sorted_wrt (\<lambda>a b. created_text a < created_text b) dup_rest"
    by (simp add: dup_rest_def sorted_wrt_map created_text_sample_entry)
  have z: "[] < replicate e (CHR ''I'')" if "0 < e" for e
    using replicate_less[OF that, of "CHR ''I''"] by simp
  have "\<forall>e\<in>set dup_rest. [] < created_text e"
    by (auto simp: dup_rest_def created_text_sample_entry z)
  then show ?thesis using r t by simp
qed

lemma dup_cleanup:
  "cleanup_list ((sample_entry ''c'' ''completed'' [] ++ task_to_dict isoformat_sample (hd dup_store))
                   # dup_rest @ [sample_entry ''c'' ''pending'' []])
     = Inr (sample_entry ''c'' ''pending'' [] # rev dup_rest)"
proof -
  let ?X = "sample_entry ''c'' ''completed'' [] ++ task_to_dict isoformat_sample (hd dup_store)"
  let ?Y = "sample_entry ''c'' ''pending'' []"
  let ?T = "?X # dup_rest @ [?Y]"
  have x: "\<not> is_unfinished ?X"
    by (simp add: is_unfinished_def dict_get_def map_add_def dup_snapshot)
  have y: "is_unfinished ?Y" by (simp add: is_unfinished_sample_entry)
  have p: "filter is_unfinished ?T = [?Y]"
    using x y by (simp add: dup_rest_filter)
  have c: "filter (\<lambda>t. \<not> is_unfinished t) ?T = ?X # dup_rest"
    using x y by (simp add: dup_rest_filter)
  have typed: "length (filter (\<lambda>t. \<not> is_unfinished t) ?T) < 2
           \<or> list_all (\<lambda>t. t ''created_at'' \<noteq> Some PNone) (filter (\<lambda>t. \<not> is_unfinished t) ?T)"
    unfolding c
    by (rule disjI2)
       (auto simp: map_add_def dup_snapshot dup_rest_def list_all_iff sample_entry_def)
  have big: "MAX_TASKS_IN_SESSION_STATE < length ?T"
    by (simp add: MAX_TASKS_IN_SESSION_STATE_def length_dup_rest)
  have s: "rev (sort_key created_text (rev (?X # dup_rest))) = rev (?X # dup_rest)"
    using sort_key_rev_increasing[OF dup_sorted] by (simp only:)
  have "take 19 (rev (?X # dup_rest)) = rev dup_rest"
    by (simp add: length_dup_rest)
  then show ?thesis
    using cleanup_list_text[OF big typed] unfolding p c s by simp
qed

text \<open>
  Claim C8, as stated: for every cache a second \<open>sync_pending_tasks\<close> leaves the cache as
  the first one left it. In \<open>dup_cache\<close> the first call merges the row \<open>c\<close> into the first
  dictionary with that id, the finished one, which the eviction then drops as the oldest;
  the pending dictionary \<open>c\<close> stays as it was. The second call finds the pending one first
  and merges the row into it: its status becomes \<open>completed\<close>.
\<close>

theorem C8_counterexample:
  "length dup_cache = 21
   \<and> snd (sync_pending_tasks isoformat_sample dup_store (Some (sample_state dup_cache)))
       = Some (sample_state (sample_entry ''c'' ''pending'' [] # rev dup_rest))
   \<and> snd (sync_pending_tasks isoformat_sample dup_store
            (snd (sync_pending_tasks isoformat_sample dup_store (Some (sample_state dup_cache)))))
       = Some (sample_state
                 ((sample_entry ''c'' ''pending'' [] ++ task_to_dict isoformat_sample (hd dup_store))
                    # rev dup_rest))
   \<and> snd (sync_pending_tasks isoformat_sample dup_store
            (snd (sync_pending_tasks isoformat_sample dup_store (Some (sample_state dup_cache)))))
       \<noteq> snd (sync_pending_tasks isoformat_sample dup_store (Some (sample_state dup_cache)))"
proof -
  let ?X = "sample_entry ''c'' ''completed'' [] ++ task_to_dict isoformat_sample (hd dup_store)"
  let ?Y = "sample_entry ''c'' ''pending'' []"
  let ?d = "task_to_dict isoformat_sample (hd dup_store)"
  have l: "length dup_cache = 21"
    by (simp add: dup_cache_def length_sample_cache)
  have l1: "length (?X # dup_rest @ [?Y]) = 21" by (simp add: length_dup_rest)
  have first: "snd (sync_pending_tasks isoformat_sample dup_store (Some (sample_state dup_cache)))
       = Some (sample_state (?Y # rev dup_rest))"
    using l1
    by (simp add: sync_pending_tasks_def get_tasks_from_session_state_def sample_state_def
          dup_ids_first dup_get update_task_in_session_state_def dup_merge_first
          cleanup_old_tasks_def Let_def dup_cleanup MAX_TASKS_IN_SESSION_STATE_def
          del: pending_task_ids.simps merge_or_append.simps)
  have l2: "length ((?Y ++ ?d) # rev dup_rest) = 20" by (simp add: length_dup_rest)
  have second: "snd (sync_pending_tasks isoformat_sample dup_store (Some (sample_state (?Y # rev dup_rest))))
       = Some (sample_state ((?Y ++ ?d) # rev dup_rest))"
    using l2
    by (simp add: sync_pending_tasks_def get_tasks_from_session_state_def sample_state_def
          dup_ids_second dup_get update_task_in_session_state_def dup_merge_second
          cleanup_old_tasks_def Let_def MAX_TASKS_IN_SESSION_STATE_def
          del: pending_task_ids.simps merge_or_append.simps)
  have "?Y ''status'' \<noteq> (?Y ++ ?d) ''status''"
    by (simp add: map_add_def dup_snapshot sample_entry_def)
  then have ne: "?Y ++ ?d \<noteq> ?Y" by metis
  have diff: "Some (sample_state ((?Y ++ ?d) # rev dup_rest)) \<noteq> Some (sample_state (?Y # rev dup_rest))"
    using ne by (simp add: sample_state_def)
  show ?thesis
    unfolding first second using l diff by simp
qed

text \<open>
  Claim C8, amended. For every store and every session state whose cache is keyed by
  \<open>task_id\<close> (no two dictionaries share one), a second \<open>sync_pending_tasks\<close> against the
  same store leaves the session state exactly as the first one left it.
\<close>

theorem C8_sync_idempotent:
  assumes "distinct_ids (get_tasks_from_session_state ss)"
  shows "snd (sync_pending_tasks isoformat db (snd (sync_pending_tasks isoformat db ss)))
           = snd (sync_pending_tasks isoformat db ss)"
proof (cases ss)
  case None
  then show ?thesis by (simp add: sync_pending_tasks_def)
next
  case (Some s)
  show ?thesis
  proof (cases "image_generation_tasks s")
    case None
    then show ?thesis using Some
      by (simp add: sync_pending_tasks_def get_tasks_from_session_state_def)
  next
    case (Some T)
    then have s: "s \<lparr> image_generation_tasks := Some T \<rparr> = s" by simp
    have dT: "distinct_ids T"
      using assms \<open>ss = Some s\<close> Some by (simp add: get_tasks_from_session_state_def)
    have first: "snd (sync_pending_tasks isoformat db ss)
                   = Some (s \<lparr> image_generation_tasks := Some (sync_list isoformat db T) \<rparr>)"
      using sync_result[OF dT, of isoformat db s] \<open>ss = Some s\<close> s by simp
    have fixed: "sync_list isoformat db (sync_list isoformat db T) = sync_list isoformat db T"
      and d: "distinct_ids (sync_list isoformat db T)"
      using sync_list_fixed[OF dT] by simp_all
    have "snd (sync_pending_tasks isoformat db
                 (Some (s \<lparr> image_generation_tasks := Some (sync_list isoformat db T) \<rparr>)))
            = Some (s \<lparr> image_generation_tasks := Some (sync_list isoformat db T) \<rparr>)"
      using sync_result[OF d, of isoformat db s] fixed by simp
    then show ?thesis using first by simp
  qed
qed

theorem C8_sync_idempotent_witness:
  "distinct_ids (get_tasks_from_session_state
      (Some (sample_state [sample_entry ''t1'' ''pending'' ''I'', sample_entry ''t2'' ''pending'' ''II''])))
   \<and> snd (sync_pending_tasks isoformat_sample sample_store
        (snd (sync_pending_tasks isoformat_sample sample_store
           (Some (sample_state [sample_entry ''t1'' ''pending'' ''I'',
                                sample_entry ''t2'' ''pending'' ''II''])))))
     = snd (sync_pending_tasks isoformat_sample sample_store
           (Some (sample_state [sample_entry ''t1'' ''pending'' ''I'',
                                sample_entry ''t2'' ''pending'' ''II''])))"
proof -
  have h: "distinct_ids (get_tasks_from_session_state
      (Some (sample_state [sample_entry ''t1'' ''pending'' ''I'', sample_entry ''t2'' ''pending'' ''II''])))"
    by (simp add: distinct_ids_def get_tasks_from_session_state_def sample_state_def
          sample_entry_def dict_get_def)
  show ?thesis
    using h C8_sync_idempotent [OF h, of isoformat_sample sample_store] by simp
qed

section \<open>Submitting a task that exists\<close>

text \<open>
  Claim C4, as stated: every call with a \<open>task_id\<close> that is already in the store returns
  the message that reports the existing task. The prompt is checked first: a call for the
  existing \<open>t1\<close> with no prompt, and none to be had from the context, returns the
  missing-prompt message. And an empty \<open>task_id\<close> counts as none: where the store holds a
  row whose id is the empty string, a call with that id gets a fresh identifier, creates a
  second row and starts a worker.
\<close>

theorem C4_counterexample:
  "get_task [sample_row] ''t1'' = Some sample_row
   \<and> generate_image isoformat_sample 500 501 ''fresh'' (sample_context None) None (Some ''t1'')
        None [sample_row]
      = (NoPrompt, [sample_row], empty_state, None)
   \<and> get_task [sample_row \<lparr> id_t := [] \<rparr>] [] = Some (sample_row \<lparr> id_t := [] \<rparr>)
   \<and> fst (generate_image isoformat_sample 500 501 ''fresh'' (sample_context None)
             (Some ''fruit puree'') (Some []) None [sample_row \<lparr> id_t := [] \<rparr>])
      = Submitted ''fresh''
   \<and> map id_t (fst (snd (generate_image isoformat_sample 500 501 ''fresh'' (sample_context None)
             (Some ''fruit puree'') (Some []) None [sample_row \<lparr> id_t := [] \<rparr>])))
      = [[], ''fresh'']
   \<and> snd (snd (snd (generate_image isoformat_sample 500 501 ''fresh'' (sample_context None)
             (Some ''fruit puree'') (Some []) None [sample_row \<lparr> id_t := [] \<rparr>])))
      = Some (''fresh'', ''fruit puree'')"
  by (simp add: get_sample_row generate_image_def sample_context_def truthy_def get_task_def
        sample_row_def create_task_def Let_def empty_state_def update_task_in_session_state_def
        cleanup_old_tasks_def MAX_TASKS_IN_SESSION_STATE_def)

text \<open>
  Claim C4, amended. For every call whose \<open>task_id\<close> is not empty and is already in the
  store, the store is returned as it was (no second row, the existing row untouched), no
  worker is started and the session state is not touched, whatever the prompt; and when a
  prompt is given or can be taken from the context, the message reports the existing task
  and its status.
\<close>

theorem C4_existing_task:
  assumes "get_task db tid = Some existing"
      and "tid \<noteq> []"
      and "truthy prompt_arg \<or> truthy (extracted_prompt ctx)"
  shows "generate_image isoformat t_create t_info uuid4 ctx prompt_arg (Some tid) state_arg db
           = (TaskExists tid (status existing), db,
              (case state_arg of None \<Rightarrow> empty_state | Some s \<Rightarrow> s), None)
       \<and> snd (generate_image isoformat t_create t_info uuid4 any_ctx any_prompt (Some tid) state_arg db)
           = (db, (case state_arg of None \<Rightarrow> empty_state | Some s \<Rightarrow> s), None)"
proof -
  have 1: "generate_image isoformat t_create t_info uuid4 ctx prompt_arg (Some tid) state_arg db
           = (TaskExists tid (status existing), db,
              (case state_arg of None \<Rightarrow> empty_state | Some s \<Rightarrow> s), None)"
    using assms
    by (auto simp: generate_image_def Let_def truthy_def split: option.splits)
  have 2: "snd (generate_image isoformat t_create t_info uuid4 any_ctx any_prompt (Some tid) state_arg db)
           = (db, (case state_arg of None \<Rightarrow> empty_state | Some s \<Rightarrow> s), None)"
    using assms(1,2)
    by (auto simp: generate_image_def Let_def truthy_def split: option.splits)
  show ?thesis using 1 2 by simp
qed

theorem C4_existing_task_witness:
  "get_task [sample_row] ''t1'' = Some sample_row \<and> ''t1'' \<noteq> []
   \<and> (truthy (Some ''fruit puree'') \<or> truthy (extracted_prompt (sample_context None)))
   \<and> generate_image isoformat_sample 500 501 ''fresh'' (sample_context None) (Some ''fruit puree'')
        (Some ''t1'') (Some (sample_state [])) [sample_row]
      = (TaskExists ''t1'' (status sample_row), [sample_row], sample_state [], None)
   \<and> snd (generate_image isoformat_sample 500 501 ''fresh'' (sample_context None) None
        (Some ''t1'') (Some (sample_state [])) [sample_row])
      = ([sample_row], sample_state [], None)"
proof -
  have h2: "''t1'' \<noteq> []" by simp
  have h3: "truthy (Some ''fruit puree'') \<or> truthy (extracted_prompt (sample_context None))"
    by (simp add: truthy_def)
  show ?thesis
    using get_sample_row h2 h3
      C4_existing_task
        [OF get_sample_row h2 h3, where isoformat = isoformat_sample and t_create = 500
           and t_info = 501 and ?uuid4.0 = "''fresh''" and state_arg = "Some (sample_state [])"
           and any_ctx = "sample_context None" and any_prompt = None]
    by simp
qed

end
